theory Spec2Isabelle
  imports Complex_Main "HOL-Library.Char_ord" "HOL-Library.List_Lexorder"
    "HOL-Library.Product_Lexorder"
begin

section \<open>The ratings table\<close>

text \<open>
  The dashboard \<^verbatim>\<open>app.py\<close> reads one CSV file into a pandas DataFrame and derives one
  table per tab. A DataFrame is modelled as the list of its rows, in index order; a row
  is a record of the columns the queries read. Floating-point columns (\<^verbatim>\<open>rating\<close>, the
  means and the percentages) are idealised as rationals. The only column the source
  treats as possibly missing is \<^verbatim>\<open>genres\<close> (\<^verbatim>\<open>dropna=False\<close>, \<^verbatim>\<open>fillna\<close>): a missing
  genre (NaN) is \<open>None\<close>. Strings are compared as Python compares them, character by
  character.
\<close>

record rating_row =
  user_id :: int
  movie_id :: int
  title :: string
  genres :: "string option"
  rating :: rat
  year :: int
  age :: int

type_synonym table = "rating_row list"

section \<open>The loaders\<close>

text \<open>
  \<^verbatim>\<open>load_movie_ratings\<close> and \<^verbatim>\<open>load_movie_ratings_ec\<close>: each computes a path from the
  location of \<^verbatim>\<open>app.py\<close> and hands it to \<^verbatim>\<open>pd.read_csv\<close>. A path is the list of its
  components, a file system maps a path to the contents of the file there, and the CSV
  parser of pandas is a parameter \<open>parse\<close> that may fail with an error of its own.
  Opening a path that does not exist raises \<^verbatim>\<open>FileNotFoundError\<close>. The decorator
  \<^verbatim>\<open>st.cache_data(ttl=3600)\<close> memoises each loader by wall-clock time and is not modelled.
\<close>

type_synonym path = "string list"

type_synonym filesystem = "path \<rightharpoonup> string"

datatype error = FileNotFoundError | IndexError | ParserError string

text \<open>
  \<^verbatim>\<open>p.parents[n]\<close>: the path \<open>p\<close> (its components below the root) without its last
  \<open>n + 1\<close> components; an index beyond the ancestors raises \<^verbatim>\<open>IndexError\<close>.
\<close>

definition parents :: "path \<Rightarrow> nat \<Rightarrow> error + path" where
  "parents p n = (if n < length p then Inr (take (length p - Suc n) p) else Inl IndexError)"

definition read_csv :: "(string \<Rightarrow> error + table) \<Rightarrow> filesystem \<Rightarrow> path \<Rightarrow> error + table" where
  "read_csv parse fs p = (case fs p of None \<Rightarrow> Inl FileNotFoundError | Some text \<Rightarrow> parse text)"

definition load_movie_ratings ::
  "(string \<Rightarrow> error + table) \<Rightarrow> filesystem \<Rightarrow> path \<Rightarrow> error + table" where
  "load_movie_ratings parse fs file =
     (case parents file 2 of
        Inl e \<Rightarrow> Inl e
      | Inr base \<Rightarrow>
          (let data_path = base @ [''data'', ''movie_ratings.csv''];
               df = read_csv parse fs data_path
           in df))"

definition load_movie_ratings_ec ::
  "(string \<Rightarrow> error + table) \<Rightarrow> filesystem \<Rightarrow> path \<Rightarrow> error + table" where
  "load_movie_ratings_ec parse fs file =
     (case parents file 2 of
        Inl e \<Rightarrow> Inl e
      | Inr base \<Rightarrow>
          (let data_path = base @ [''data'', ''movie_ratings.csv''];
               df = read_csv parse fs data_path
           in df))"

section \<open>The pandas operations the queries use\<close>

subsection \<open>groupby\<close>

text \<open>
  \<^verbatim>\<open>df.groupby(col)\<close> with the default \<^verbatim>\<open>sort=True\<close>: one group per distinct key, the
  groups in ascending order of the key, each group holding the rows with that key in
  their order in the table. \<open>groupby\<close> is the operation on key columns without missing
  values. On a key that may be missing, \<^verbatim>\<open>dropna=False\<close> keeps the rows without a key
  as one more group, placed last (\<open>groupby_keepna\<close>), and the default \<^verbatim>\<open>dropna=True\<close>
  leaves them out (\<open>groupby_dropna\<close>).
\<close>

definition group_rows :: "('r \<Rightarrow> 'k) \<Rightarrow> 'r list \<Rightarrow> 'k \<Rightarrow> 'k \<times> 'r list" where
  "group_rows col df k = (k, filter (\<lambda>r. col r = k) df)"

definition groupby :: "('r \<Rightarrow> 'k::linorder) \<Rightarrow> 'r list \<Rightarrow> ('k \<times> 'r list) list" where
  "groupby col df = map (group_rows col df) (sort (remdups (map col df)))"

definition present_keys :: "('r \<Rightarrow> 'k::linorder option) \<Rightarrow> 'r list \<Rightarrow> 'k list" where
  "present_keys col df = sort (remdups (List.map_filter col df))"

definition keepna_keys :: "('r \<Rightarrow> 'k::linorder option) \<Rightarrow> 'r list \<Rightarrow> 'k option list" where
  "keepna_keys col df =
     map Some (present_keys col df) @ (if None \<in> set (map col df) then [None] else [])"

definition groupby_keepna ::
  "('r \<Rightarrow> 'k::linorder option) \<Rightarrow> 'r list \<Rightarrow> ('k option \<times> 'r list) list" where
  "groupby_keepna col df = map (group_rows col df) (keepna_keys col df)"

definition groupby_dropna ::
  "('r \<Rightarrow> 'k::linorder option) \<Rightarrow> 'r list \<Rightarrow> ('k \<times> 'r list) list" where
  "groupby_dropna col df =
     map (\<lambda>k. (k, filter (\<lambda>r. col r = Some k) df)) (present_keys col df)"

subsection \<open>Aggregation\<close>

text \<open>
  \<^verbatim>\<open>.agg(mean_rating=("rating", "mean"), n_ratings=("rating", "size")).reset_index()\<close>:
  one row per group, with the key, the mean of the ratings and the number of rows.
  A group is never empty, so the mean never divides by zero.
\<close>

record 'k stats =
  key :: 'k
  mean_rating :: rat
  n_ratings :: nat

definition mean :: "rat list \<Rightarrow> rat" where
  "mean xs = sum_list xs / of_nat (length xs)"

definition agg :: "('k \<times> table) list \<Rightarrow> 'k stats list" where
  "agg gs = map (\<lambda>(k, rows).
     \<lparr>key = k, mean_rating = mean (map rating rows), n_ratings = length rows\<rparr>) gs"

subsection \<open>Sorting\<close>

text \<open>
  \<^verbatim>\<open>sort_values(col, ascending=...)\<close> on one column takes the rows in the order of the
  indexer that pandas' \<^verbatim>\<open>nargsort\<close> computes from the column: numpy's \<^verbatim>\<open>argsort\<close> of the
  column for an ascending sort; for a descending sort the \<^verbatim>\<open>argsort\<close> of the reversed
  column, read through the reversed positions, and reversed.

  The source leaves the algorithm at the default \<^verbatim>\<open>kind="quicksort"\<close>, for which the
  library promises a sorted result and no order among equal keys. So the order that
  numpy's \<^verbatim>\<open>argsort\<close> gives to positions with equal keys is a parameter \<open>tie\<close> of the
  model: \<open>tie ks i\<close> is the rank of position \<open>i\<close> among the positions of the column \<open>ks\<close>
  with the same key (positions of the same rank stay in the order of the column). Every
  \<open>tie\<close> gives an \<^verbatim>\<open>argsort\<close> that sorts, and every \<^verbatim>\<open>argsort\<close> that sorts is given by
  some \<open>tie\<close> (\<open>argsort_complete\<close>).
\<close>

definition argsort :: "('a list \<Rightarrow> nat \<Rightarrow> nat) \<Rightarrow> 'a::linorder list \<Rightarrow> nat list" where
  "argsort tie ks = sort_key (\<lambda>i. ks ! i) (sort_key (tie ks) [0..<length ks])"

definition nargsort :: "('a list \<Rightarrow> nat \<Rightarrow> nat) \<Rightarrow> 'a::linorder list \<Rightarrow> bool \<Rightarrow> nat list" where
  "nargsort tie items ascending =
     (let idx = [0..<length items];
          non_nans = (if ascending then items else rev items);
          non_nan_idx = (if ascending then idx else rev idx);
          indexer = map (\<lambda>j. non_nan_idx ! j) (argsort tie non_nans)
      in if ascending then indexer else rev indexer)"

definition sort_values ::
  "('a list \<Rightarrow> nat \<Rightarrow> nat) \<Rightarrow> ('r \<Rightarrow> 'a::linorder) \<Rightarrow> bool \<Rightarrow> 'r list \<Rightarrow> 'r list" where
  "sort_values tie col ascending df =
     map (\<lambda>i. df ! i) (nargsort tie (map col df) ascending)"

section \<open>Q1: genre breakdown\<close>

text \<open>
  The number of rows of each genre, sorted by descending count, with the percentage of
  the total each makes up; the genres below \<^verbatim>\<open>min_pct\<close> are replaced by one row
  \<^verbatim>\<open>Other\<close> that adds them up, when there are any.
\<close>

record genre_count =
  genre :: "string option"
  count :: nat
  pct :: rat

definition genre_sizes :: "(nat list \<Rightarrow> nat \<Rightarrow> nat) \<Rightarrow> table \<Rightarrow> (string option \<times> nat) list" where
  "genre_sizes tie df =
     sort_values tie snd False (map (\<lambda>(g, rows). (g, length rows)) (groupby_keepna genres df))"

definition total :: "(nat list \<Rightarrow> nat \<Rightarrow> nat) \<Rightarrow> table \<Rightarrow> nat" where
  "total tie df = sum_list (map snd (genre_sizes tie df))"

text \<open>The divisor of the percentages, \<^verbatim>\<open>max(total, 1)\<close>.\<close>

definition pct_divisor :: "(nat list \<Rightarrow> nat \<Rightarrow> nat) \<Rightarrow> table \<Rightarrow> nat" where
  "pct_divisor tie df = max (total tie df) 1"

definition genre_counts :: "(nat list \<Rightarrow> nat \<Rightarrow> nat) \<Rightarrow> table \<Rightarrow> genre_count list" where
  "genre_counts tie df =
     map (\<lambda>(g, c). \<lparr>genre = g, count = c,
                     pct = 100 * of_nat c / of_nat (pct_divisor tie df)\<rparr>)
       (genre_sizes tie df)"

definition major :: "(nat list \<Rightarrow> nat \<Rightarrow> nat) \<Rightarrow> table \<Rightarrow> rat \<Rightarrow> genre_count list" where
  "major tie df min_pct = filter (\<lambda>r. min_pct \<le> pct r) (genre_counts tie df)"

definition minor :: "(nat list \<Rightarrow> nat \<Rightarrow> nat) \<Rightarrow> table \<Rightarrow> rat \<Rightarrow> genre_count list" where
  "minor tie df min_pct = filter (\<lambda>r. pct r < min_pct) (genre_counts tie df)"

definition other_row :: "(nat list \<Rightarrow> nat \<Rightarrow> nat) \<Rightarrow> table \<Rightarrow> rat \<Rightarrow> genre_count" where
  "other_row tie df min_pct =
     \<lparr>genre = Some ''Other'',
      count = sum_list (map count (minor tie df min_pct)),
      pct = sum_list (map pct (minor tie df min_pct))\<rparr>"

definition display_df :: "(nat list \<Rightarrow> nat \<Rightarrow> nat) \<Rightarrow> table \<Rightarrow> rat \<Rightarrow> genre_count list" where
  "display_df tie df min_pct =
     (if minor tie df min_pct \<noteq> [] then major tie df min_pct @ [other_row tie df min_pct]
      else major tie df min_pct)"

section \<open>Q2: average rating by genre\<close>

text \<open>
  One row of statistics per genre (the rows without a genre form a group of their own),
  the genres with fewer than \<^verbatim>\<open>min_count\<close> ratings left out, sorted on the mean rating;
  \<open>ascending\<close> is the value of \<^verbatim>\<open>sort_order == "Ascending"\<close>.
\<close>

definition genre_stats :: "table \<Rightarrow> string option stats list" where
  "genre_stats df = agg (groupby_keepna genres df)"

definition filtered ::
  "(rat list \<Rightarrow> nat \<Rightarrow> nat) \<Rightarrow> table \<Rightarrow> int \<Rightarrow> bool \<Rightarrow> string option stats list" where
  "filtered tie df min_count ascending =
     sort_values tie mean_rating ascending
       (filter (\<lambda>r. min_count \<le> int (n_ratings r)) (genre_stats df))"

section \<open>Q3: average rating by release year\<close>

text \<open>
  \<^verbatim>\<open>rolling(window=w, center=True).mean()\<close>: pandas gives position \<open>i\<close> of a series of
  \<open>n\<close> values the window from \<open>end - w\<close> up to (not including) \<open>end\<close>, where
  \<open>end = i + 1 + (w - 1) div 2\<close>, both bounds clipped to \<open>0..n\<close>; the result is the mean
  of the values in the window when there are at least \<^verbatim>\<open>min_periods\<close> of them (by
  default \<open>w\<close>), and NaN (\<open>None\<close>) otherwise.
\<close>

definition clip :: "int \<Rightarrow> int \<Rightarrow> int \<Rightarrow> int" where
  "clip x lo hi = min (max x lo) hi"

definition window_bounds :: "nat \<Rightarrow> nat \<Rightarrow> nat \<Rightarrow> nat \<times> nat" where
  "window_bounds num_values window_size i =
     (let offset = (int window_size - 1) div 2;
          end = int i + 1 + offset;
          start = end - int window_size
      in (nat (clip start 0 (int num_values)), nat (clip end 0 (int num_values))))"

definition rolling_mean :: "nat \<Rightarrow> rat list \<Rightarrow> rat option list" where
  "rolling_mean window_size xs =
     map (\<lambda>i. case window_bounds (length xs) window_size i of
                (start, end) \<Rightarrow>
                  (let win = take (end - start) (drop start xs)
                   in if window_size \<le> length win
                      then Some (sum_list win / of_nat (length win)) else None))
       [0..<length xs]"

text \<open>
  The query takes the year range \<open>(lo, hi)\<close>, the threshold and the window as its
  controls give them; the window is the value of a slider from 1 to 9. The source
  smooths only a table with at least one row and a window above 1, and copies the
  column of means otherwise.
\<close>

record year_row =
  year_key :: int
  year_mean_rating :: rat
  year_n_ratings :: nat
  mean_rating_smoothed :: "rat option"

definition year_stats :: "table \<Rightarrow> int stats list" where
  "year_stats df = agg (groupby year df)"

definition year_filtered ::
  "(int list \<Rightarrow> nat \<Rightarrow> nat) \<Rightarrow> table \<Rightarrow> int \<Rightarrow> int \<Rightarrow> int \<Rightarrow> int stats list" where
  "year_filtered tie df lo hi min_count_year =
     sort_values tie key True
       (filter (\<lambda>r. (lo \<le> key r \<and> key r \<le> hi) \<and> min_count_year \<le> int (n_ratings r))
          (year_stats df))"

definition year_smoothed ::
  "(int list \<Rightarrow> nat \<Rightarrow> nat) \<Rightarrow> table \<Rightarrow> int \<Rightarrow> int \<Rightarrow> int \<Rightarrow> nat \<Rightarrow> year_row list" where
  "year_smoothed tie df lo hi min_count_year smooth_window =
     (let yf = year_filtered tie df lo hi min_count_year;
          smoothed =
            (if 1 < smooth_window \<and> yf \<noteq> []
             then rolling_mean smooth_window (map mean_rating yf)
             else map (\<lambda>r. Some (mean_rating r)) yf)
      in map (\<lambda>(r, s). \<lparr>year_key = key r, year_mean_rating = mean_rating r,
                         year_n_ratings = n_ratings r, mean_rating_smoothed = s\<rparr>)
           (zip yf smoothed))"

section \<open>Q4: top movies\<close>

text \<open>
  \<^verbatim>\<open>sort_values(["mean_rating", "n_ratings"], ascending=[False, False])\<close>: on several
  columns pandas sorts with numpy's \<^verbatim>\<open>lexsort\<close>, a stable sort on the last key followed
  by a stable sort on the first, each key negated for a descending order.
  \<^verbatim>\<open>head(top_n)\<close> keeps the first \<open>top_n\<close> rows (the slider gives \<open>3..25\<close>).
\<close>

definition movie_stats :: "table \<Rightarrow> (int \<times> string) stats list" where
  "movie_stats df = agg (groupby (\<lambda>r. (movie_id r, title r)) df)"

definition movie_filtered :: "table \<Rightarrow> int \<Rightarrow> (int \<times> string) stats list" where
  "movie_filtered df min_ratings_movie =
     filter (\<lambda>r. min_ratings_movie \<le> int (n_ratings r)) (movie_stats df)"

definition lexsort_desc :: "'k stats list \<Rightarrow> 'k stats list" where
  "lexsort_desc xs =
     sort_key (\<lambda>r. - mean_rating r) (sort_key (\<lambda>r. - int (n_ratings r)) xs)"

definition top_movies :: "table \<Rightarrow> int \<Rightarrow> nat \<Rightarrow> (int \<times> string) stats list" where
  "top_movies df min_ratings_movie top_n =
     take top_n (lexsort_desc (movie_filtered df min_ratings_movie))"

section \<open>Q5: ratings against age for the selected genres\<close>

text \<open>
  \<^verbatim>\<open>df[df["genres"].isin(genres_to_compare)].groupby(["age", "genres"])\<close>: the rows whose
  genre is one of the selected values, grouped on the pair of columns. The \<^verbatim>\<open>groupby\<close>
  has the default \<^verbatim>\<open>dropna=True\<close>, so a row without a genre has no key.
\<close>

definition age_stats :: "table \<Rightarrow> string option list \<Rightarrow> (int \<times> string) stats list" where
  "age_stats df genres_to_compare =
     agg (groupby_dropna (\<lambda>r. map_option (\<lambda>g. (age r, g)) (genres r))
            (filter (\<lambda>r. genres r \<in> set genres_to_compare) df))"

section \<open>Q6: number of ratings against mean rating\<close>

text \<open>One row of statistics per genre, with the default \<^verbatim>\<open>dropna=True\<close>.\<close>

definition genre_stats_q6 :: "table \<Rightarrow> string stats list" where
  "genre_stats_q6 df = agg (groupby_dropna genres df)"

section \<open>Q7: cleaning the genres\<close>

text \<open>
  Python's \<^verbatim>\<open>s.split(sep)\<close> on a one-character separator: the pieces of \<open>s\<close> between the
  occurrences of \<open>sep\<close>, empty pieces included; a string without \<open>sep\<close> gives itself.
\<close>

fun split_on :: "char \<Rightarrow> string \<Rightarrow> string list" where
  "split_on sep [] = [[]]"
| "split_on sep (c # cs) =
     (if c = sep then [] # split_on sep cs
      else (case split_on sep cs of
              [] \<Rightarrow> [[c]]
            | t # ts \<Rightarrow> (c # t) # ts))"

text \<open>
  Line 209 assigns the filled column back into \<^verbatim>\<open>df_ec\<close>; \<open>fillna_genres\<close> is the table
  \<^verbatim>\<open>df_ec\<close> holds after it. \<^verbatim>\<open>assign(genres=...str.split("|"))\<close> builds a new table
  whose genre cell is a list of tokens (a missing genre stays missing), here the row
  paired with its index label and its tokens. \<^verbatim>\<open>explode\<close> gives one row per token under
  the index label of the row it comes from; a missing cell or an empty list gives one
  row with a missing genre.
\<close>

definition fillna_genres :: "table \<Rightarrow> table" where
  "fillna_genres df_ec =
     map (\<lambda>r. r\<lparr>genres := Some (case genres r of None \<Rightarrow> ''(no genres listed)'' | Some s \<Rightarrow> s)\<rparr>)
       df_ec"

definition assign_split :: "table \<Rightarrow> (nat \<times> rating_row \<times> string list option) list" where
  "assign_split df_ec =
     map (\<lambda>(i, r). (i, r, map_option (split_on CHR ''|'') (genres r))) (enumerate 0 df_ec)"

definition explode_row :: "nat \<times> rating_row \<times> string list option \<Rightarrow> (nat \<times> rating_row) list" where
  "explode_row x =
     (case x of (i, r, cell) \<Rightarrow>
        (case cell of
           None \<Rightarrow> [(i, r\<lparr>genres := None\<rparr>)]
         | Some [] \<Rightarrow> [(i, r\<lparr>genres := None\<rparr>)]
         | Some (t # ts) \<Rightarrow> map (\<lambda>t'. (i, r\<lparr>genres := Some t'\<rparr>)) (t # ts)))"

definition explode :: "(nat \<times> rating_row \<times> string list option) list \<Rightarrow> (nat \<times> rating_row) list" where
  "explode xs = concat (map explode_row xs)"

definition df_ec_cleaned :: "table \<Rightarrow> (nat \<times> rating_row) list" where
  "df_ec_cleaned df_ec = explode (assign_split (fillna_genres df_ec))"

section \<open>The tabs and the tables they hold\<close>

text \<open>
  \<^verbatim>\<open>main\<close> holds two loaded tables: \<^verbatim>\<open>df\<close>, read by the tabs Q1 to Q6, and \<^verbatim>\<open>df_ec\<close>,
  loaded again in the tab Q7 (\<^verbatim>\<open>st.cache_data\<close> hands every call a copy of its own, so
  the two are different objects). Each tab is a step on this pair that also returns the
  table it charts. The tabs Q1 to Q6 build their tables with \<^verbatim>\<open>groupby\<close>, boolean
  indexing, \<^verbatim>\<open>copy\<close>, \<^verbatim>\<open>sort_values\<close> and \<^verbatim>\<open>concat\<close>, which all return new objects, and
  assign columns only into those; the tab Q7 assigns the column \<^verbatim>\<open>genres\<close> of \<^verbatim>\<open>df_ec\<close>
  itself.
\<close>

record frames =
  frame_df :: table
  frame_df_ec :: table

definition tab_q1 ::
  "(nat list \<Rightarrow> nat \<Rightarrow> nat) \<Rightarrow> rat \<Rightarrow> frames \<Rightarrow> genre_count list \<times> frames" where
  "tab_q1 tie min_pct s = (display_df tie (frame_df s) min_pct, s)"

definition tab_q2 ::
  "(rat list \<Rightarrow> nat \<Rightarrow> nat) \<Rightarrow> int \<Rightarrow> bool \<Rightarrow> frames \<Rightarrow> string option stats list \<times> frames" where
  "tab_q2 tie min_count ascending s = (filtered tie (frame_df s) min_count ascending, s)"

definition tab_q3 ::
  "(int list \<Rightarrow> nat \<Rightarrow> nat) \<Rightarrow> int \<Rightarrow> int \<Rightarrow> int \<Rightarrow> nat \<Rightarrow> frames \<Rightarrow> year_row list \<times> frames" where
  "tab_q3 tie lo hi min_count_year smooth_window s =
     (year_smoothed tie (frame_df s) lo hi min_count_year smooth_window, s)"

definition tab_q4 :: "int \<Rightarrow> nat \<Rightarrow> frames \<Rightarrow> (int \<times> string) stats list \<times> frames" where
  "tab_q4 min_ratings_movie top_n s = (top_movies (frame_df s) min_ratings_movie top_n, s)"

definition tab_q5 :: "string option list \<Rightarrow> frames \<Rightarrow> (int \<times> string) stats list \<times> frames" where
  "tab_q5 genres_to_compare s = (age_stats (frame_df s) genres_to_compare, s)"

definition tab_q6 :: "frames \<Rightarrow> string stats list \<times> frames" where
  "tab_q6 s = (genre_stats_q6 (frame_df s), s)"

definition tab_q7 :: "frames \<Rightarrow> (nat \<times> rating_row) list \<times> frames" where
  "tab_q7 s =
     (let s' = s\<lparr>frame_df_ec := fillna_genres (frame_df_ec s)\<rparr>
      in (explode (assign_split (frame_df_ec s')), s'))"

section \<open>Notions used to state the properties\<close>

text \<open>
  The number of rows of a table with a given genre, and the share of the table they
  make up, in percent of the number of rows (of one row when the table is empty).
\<close>

definition rows_with :: "table \<Rightarrow> string option \<Rightarrow> nat" where
  "rows_with df g = length (filter (\<lambda>r. genres r = g) df)"

definition share :: "table \<Rightarrow> string option \<Rightarrow> rat" where
  "share df g = 100 * of_nat (rows_with df g) / of_nat (max (length df) 1)"

text \<open>
  Python's \<^verbatim>\<open>sep.join(ts)\<close>, and the genre of a row after the missing genres are filled.
\<close>

fun join_on :: "char \<Rightarrow> string list \<Rightarrow> string" where
  "join_on sep [] = []"
| "join_on sep [t] = t"
| "join_on sep (t # u # ts) = t @ sep # join_on sep (u # ts)"

definition filled_genre :: "rating_row \<Rightarrow> string" where
  "filled_genre r = (case genres r of None \<Rightarrow> ''(no genres listed)'' | Some s \<Rightarrow> s)"

subsection \<open>Examples\<close>

text \<open>
  Two orders of equal keys: \<open>ties_in_order\<close> keeps them in the order of the column (a
  stable \<^verbatim>\<open>argsort\<close>); \<open>ties_from_right\<close> leaves a sorted column as it is and takes the
  equal keys of any other column from its end.
\<close>

definition ties_in_order :: "'a list \<Rightarrow> nat \<Rightarrow> nat" where
  "ties_in_order ks i = 0"

definition ties_from_right :: "'a::linorder list \<Rightarrow> nat \<Rightarrow> nat" where
  "ties_from_right ks i = (if sorted ks then 0 else length ks - i)"

text \<open>Two ratings of a comedy and one of a drama.\<close>

definition example_df :: table where
  "example_df =
     [\<lparr>user_id = 1, movie_id = 10, title = ''T'', genres = Some ''Comedy'', rating = 4,
       year = 1990, age = 20\<rparr>,
      \<lparr>user_id = 2, movie_id = 10, title = ''T'', genres = Some ''Comedy'', rating = 5,
       year = 1990, age = 30\<rparr>,
      \<lparr>user_id = 3, movie_id = 11, title = ''U'', genres = Some ''Drama'', rating = 3,
       year = 1991, age = 20\<rparr>]"

text \<open>Two genres with one rating each, of the same value.\<close>

definition tie_df :: table where
  "tie_df =
     [\<lparr>user_id = 1, movie_id = 10, title = ''T'', genres = Some ''Comedy'', rating = 3,
       year = 1990, age = 20\<rparr>,
      \<lparr>user_id = 2, movie_id = 11, title = ''U'', genres = Some ''Drama'', rating = 3,
       year = 1991, age = 30\<rparr>]"

text \<open>One rating in each of three consecutive years.\<close>

definition trend_df :: table where
  "trend_df =
     [\<lparr>user_id = 1, movie_id = 10, title = ''T'', genres = Some ''Comedy'', rating = 4,
       year = 1990, age = 20\<rparr>,
      \<lparr>user_id = 2, movie_id = 11, title = ''U'', genres = Some ''Drama'', rating = 3,
       year = 1991, age = 30\<rparr>,
      \<lparr>user_id = 3, movie_id = 12, title = ''V'', genres = Some ''Drama'', rating = 5,
       year = 1992, age = 30\<rparr>]"

text \<open>A plain genre, a missing genre and a composite genre.\<close>

definition pipe_df :: table where
  "pipe_df =
     [\<lparr>user_id = 1, movie_id = 10, title = ''T'', genres = Some ''Comedy'', rating = 4,
       year = 1990, age = 20\<rparr>,
      \<lparr>user_id = 2, movie_id = 11, title = ''U'', genres = None, rating = 3,
       year = 1991, age = 30\<rparr>,
      \<lparr>user_id = 3, movie_id = 12, title = ''V'', genres = Some ''A|B'', rating = 5,
       year = 1992, age = 30\<rparr>]"

text \<open>
  Four genres with one rating each, the last two of the same value, in descending
  order of the ratings.
\<close>

definition ties_df :: table where
  "ties_df =
     [\<lparr>user_id = 1, movie_id = 10, title = ''T'', genres = Some ''a'', rating = 5,
       year = 1990, age = 20\<rparr>,
      \<lparr>user_id = 2, movie_id = 11, title = ''U'', genres = Some ''b'', rating = 4,
       year = 1991, age = 30\<rparr>,
      \<lparr>user_id = 3, movie_id = 12, title = ''V'', genres = Some ''c'', rating = 3,
       year = 1992, age = 30\<rparr>,
      \<lparr>user_id = 4, movie_id = 13, title = ''W'', genres = Some ''d'', rating = 3,
       year = 1993, age = 30\<rparr>]"

section \<open>Properties\<close>

subsection \<open>The loaders\<close>

text \<open>
  C9. The two loaders compute the same path, \<^verbatim>\<open>data/movie_ratings.csv\<close> three levels
  above \<^verbatim>\<open>app.py\<close>, and return the same result on every file system, for every parser
  and wherever \<^verbatim>\<open>app.py\<close> lies: the same table, or the same error (the missing file
  among them).
\<close>

theorem loaders_equal:
  "load_movie_ratings_ec parse fs file = load_movie_ratings parse fs file \<and>
   load_movie_ratings parse fs (base @ [a, b, c]) =
     read_csv parse fs (base @ [''data'', ''movie_ratings.csv'']) \<and>
   load_movie_ratings_ec parse fs (base @ [a, b, c]) =
     read_csv parse fs (base @ [''data'', ''movie_ratings.csv''])"
  by (simp add: load_movie_ratings_def load_movie_ratings_ec_def parents_def)

subsection \<open>Grouping and sorting\<close>

lemma set_present_keys: "set (present_keys col df) = {k. Some k \<in> col ` set df}"
proof -
  have "set (List.map_filter col df) = {k. Some k \<in> col ` set df}"
    by (induction df) (auto simp: List.map_filter_simps split: option.splits)
  then show ?thesis by (simp add: present_keys_def)
qed

lemma distinct_present_keys: "distinct (present_keys col df)"
  by (simp add: present_keys_def)

lemma sorted_present_keys: "sorted (present_keys col df)"
  by (simp add: present_keys_def)

lemma set_keepna_keys: "set (keepna_keys col df) = col ` set df"
proof -
  have "\<And>x. x \<in> set (keepna_keys col df) \<longleftrightarrow> x \<in> col ` set df"
    subgoal for x
      by (cases x) (auto simp: keepna_keys_def set_present_keys)
    done
  then show ?thesis by blast
qed

lemma distinct_keepna_keys: "distinct (keepna_keys col df)"
  by (auto simp: keepna_keys_def distinct_map distinct_present_keys)

lemma sum_list_insort_key: "sum_list (map f (insort_key k x xs)) = f x + sum_list (map f xs)"
  for f :: "'a \<Rightarrow> 'b::comm_monoid_add"
  by (induction xs) (auto simp: ac_simps)

lemma sum_list_sort_key: "sum_list (map f (sort_key k xs)) = sum_list (map f xs)"
  for f :: "'a \<Rightarrow> 'b::comm_monoid_add"
  by (induction xs) (auto simp: sum_list_insort_key)

lemma argsort_perm:
  "length (argsort tie ks) = length ks" "distinct (argsort tie ks)"
  "set (argsort tie ks) = {0..<length ks}"
  by (simp_all add: argsort_def)

lemma argsort_sorted: "sorted (map (\<lambda>i. ks ! i) (argsort tie ks))"
  unfolding argsort_def by (rule sorted_sort_key)

lemma argsort_sum: "sum_list (map g (argsort tie ks)) = sum_list (map g [0..<length ks])"
  for g :: "nat \<Rightarrow> 'b::comm_monoid_add"
  by (simp add: argsort_def sum_list_sort_key)

lemma nargsort_asc: "nargsort tie items True = argsort tie items"
proof -
  have "map (\<lambda>j. [0..<length items] ! j) (argsort tie items) = map (\<lambda>j. j) (argsort tie items)"
    by (rule map_cong) (simp_all add: argsort_perm)
  then show ?thesis
    by (simp add: nargsort_def)
qed

lemma nargsort_desc:
  "nargsort tie items False =
   rev (map (\<lambda>j. length items - Suc j) (argsort tie (rev items)))"
proof -
  have "map (\<lambda>j. rev [0..<length items] ! j) (argsort tie (rev items)) =
      map (\<lambda>j. length items - Suc j) (argsort tie (rev items))"
    by (rule map_cong) (simp_all add: argsort_perm rev_nth)
  then show ?thesis
    by (simp add: nargsort_def)
qed

lemma mirror_inj: "inj_on (\<lambda>j. n - Suc j) {0..<n}"
  by (rule inj_onI) auto

lemma mirror_image: "(\<lambda>j. n - Suc j) ` {0..<n} = {0..<n}"
proof -
  have "\<And>i. i < n \<Longrightarrow> i \<in> (\<lambda>j. n - Suc j) ` {0..<n}"
    subgoal for i
      by (rule image_eqI [where x = "n - Suc i"]) auto
    done
  then show ?thesis by auto
qed

lemma nargsort_perm:
  "length (nargsort tie items asc) = length items" "distinct (nargsort tie items asc)"
  "set (nargsort tie items asc) = {0..<length items}"
proof -
  show "length (nargsort tie items asc) = length items"
    by (cases asc) (simp_all add: nargsort_asc nargsort_desc argsort_perm)
  show "distinct (nargsort tie items asc)"
  proof (cases asc)
    case True
    then show ?thesis by (simp add: nargsort_asc argsort_perm)
  next
    case False
    have "inj_on (\<lambda>j. length items - Suc j) (set (argsort tie (rev items)))"
      using mirror_inj [of "length items"] by (simp add: argsort_perm)
    with False show ?thesis
      by (simp add: nargsort_desc distinct_map argsort_perm)
  qed
  show "set (nargsort tie items asc) = {0..<length items}"
  proof (cases asc)
    case True
    then show ?thesis by (simp add: nargsort_asc argsort_perm)
  next
    case False
    then show ?thesis
      using mirror_image [of "length items"] by (simp add: nargsort_desc argsort_perm)
  qed
qed

lemma sum_list_mirror:
  "sum_list (map (\<lambda>j. g (n - Suc j)) [0..<n]) = sum_list (map g [0..<n])"
  for g :: "nat \<Rightarrow> 'b::comm_monoid_add"
proof -
  have "map (\<lambda>j. g (n - Suc j)) [0..<n] = map g (rev [0..<n])"
    by (rule nth_equalityI) (simp_all add: rev_nth)
  then show ?thesis
    by (simp add: rev_map [symmetric])
qed

lemma nargsort_sum:
  "sum_list (map g (nargsort tie items asc)) = sum_list (map g [0..<length items])"
  for g :: "nat \<Rightarrow> 'b::comm_monoid_add"
proof (cases asc)
  case True
  then show ?thesis by (simp add: nargsort_asc argsort_sum)
next
  case False
  have "sum_list (map g (nargsort tie items False)) =
      sum_list (map (\<lambda>j. g (length items - Suc j)) (argsort tie (rev items)))"
    by (simp add: nargsort_desc rev_map [symmetric] comp_def)
  also have "\<dots> = sum_list (map (\<lambda>j. g (length items - Suc j)) [0..<length items])"
    using argsort_sum [of "\<lambda>j. g (length items - Suc j)" tie "rev items"] by simp
  also have "\<dots> = sum_list (map g [0..<length items])"
    by (rule sum_list_mirror)
  finally show ?thesis using False by simp
qed

lemma nargsort_sorted_asc: "sorted (map (\<lambda>i. items ! i) (nargsort tie items True))"
  by (simp add: nargsort_asc argsort_sorted)

lemma nargsort_sorted_desc: "sorted (rev (map (\<lambda>i. items ! i) (nargsort tie items False)))"
proof -
  have "rev (map (\<lambda>i. items ! i) (nargsort tie items False)) =
      map (\<lambda>j. items ! (length items - Suc j)) (argsort tie (rev items))"
    by (simp add: nargsort_desc rev_map comp_def)
  also have "\<dots> = map (\<lambda>j. rev items ! j) (argsort tie (rev items))"
    by (rule map_cong) (simp_all add: argsort_perm rev_nth)
  finally show ?thesis
    by (simp add: argsort_sorted)
qed

lemma length_sort_values: "length (sort_values tie col asc xs) = length xs"
  by (simp add: sort_values_def nargsort_perm)

lemma set_sort_values: "set (sort_values tie col asc xs) = set xs"
proof -
  have "set (sort_values tie col asc xs) = (\<lambda>i. xs ! i) ` {0..<length xs}"
    by (simp add: sort_values_def nargsort_perm)
  also have "\<dots> = set xs"
    by (auto simp: set_conv_nth)
  finally show ?thesis .
qed

lemma sum_list_sort_values: "sum_list (map f (sort_values tie col asc xs)) = sum_list (map f xs)"
  for f :: "'a \<Rightarrow> 'b::comm_monoid_add"
proof -
  have "sum_list (map f (sort_values tie col asc xs)) =
      sum_list (map (\<lambda>i. f (xs ! i)) (nargsort tie (map col xs) asc))"
    by (simp add: sort_values_def comp_def)
  also have "\<dots> = sum_list (map (\<lambda>i. f (xs ! i)) [0..<length xs])"
    using nargsort_sum [of "\<lambda>i. f (xs ! i)" tie "map col xs" asc] by simp
  also have "\<dots> = sum_list (map f (map (\<lambda>i. xs ! i) [0..<length xs]))"
    by (simp add: comp_def)
  also have "\<dots> = sum_list (map f xs)"
    by (simp only: map_nth)
  finally show ?thesis .
qed

lemma distinct_map_sort_values:
  assumes "distinct (map h xs)"
  shows "distinct (map h (sort_values tie col asc xs))"
proof -
  have "map h (sort_values tie col asc xs) =
      map (\<lambda>i. map h xs ! i) (nargsort tie (map col xs) asc)"
    unfolding sort_values_def map_map comp_def
    by (rule map_cong) (simp_all add: nargsort_perm)
  moreover have "inj_on (\<lambda>i. map h xs ! i) (set (nargsort tie (map col xs) asc))"
    using assms by (auto simp: inj_on_def nargsort_perm nth_eq_iff_index_eq simp del: nth_map)
  ultimately show ?thesis
    by (simp add: distinct_map nargsort_perm)
qed

lemma distinct_sort_values: "distinct xs \<Longrightarrow> distinct (sort_values tie col asc xs)"
  using distinct_map_sort_values [of "\<lambda>x. x" xs tie col asc] by simp

lemma map_col_sort_values:
  "map col (sort_values tie col asc xs) = map (\<lambda>i. map col xs ! i) (nargsort tie (map col xs) asc)"
  unfolding sort_values_def map_map comp_def
  by (rule map_cong) (simp_all add: nargsort_perm)

lemma sort_values_sorted_asc: "sorted (map col (sort_values tie col True xs))"
  by (simp only: map_col_sort_values nargsort_sorted_asc)

lemma sort_values_sorted_desc: "sorted (rev (map col (sort_values tie col False xs)))"
  by (simp only: map_col_sort_values nargsort_sorted_desc)

text \<open>
  When the keys of the rows are pairwise different there is one sorted order only, so
  every sort gives it.
\<close>

lemma sorted_distinct_keys_unique:
  assumes "distinct (map f xs)" and "set ys = set xs" and "distinct ys"
    and "sorted (map f xs)" and "sorted (map f ys)"
  shows "ys = xs"
proof -
  from assms(1) have inj: "inj_on f (set xs)"
    by (simp add: distinct_map)
  have "map f ys = map f xs"
  proof (rule sorted_distinct_set_unique)
    show "distinct (map f ys)"
      using assms(2,3) inj by (simp add: distinct_map)
    show "set (map f ys) = set (map f xs)"
      using assms(2) by simp
  qed (use assms in simp_all)
  moreover have "inj_on f (set ys \<union> set xs)"
    using inj assms(2) by simp
  ultimately show ?thesis
    by (simp add: inj_on_map_eq_map)
qed

lemma sort_values_id:
  assumes "sorted (map col xs)" and "distinct (map col xs)"
  shows "sort_values tie col True xs = xs"
proof (rule sorted_distinct_keys_unique [where f = col])
  show "distinct (sort_values tie col True xs)"
    using assms(2) by (intro distinct_sort_values) (simp add: distinct_map)
qed (use assms in \<open>simp_all add: set_sort_values sort_values_sorted_asc\<close>)

lemma sort_values_reverse:
  assumes "distinct (map col (sort_values tie col True xs))"
  shows "sort_values tie col False xs = rev (sort_values tie col True xs)"
proof -
  have "rev (sort_values tie col False xs) = sort_values tie col True xs"
  proof (rule sorted_distinct_keys_unique [where f = col])
    show "distinct (map col (sort_values tie col True xs))"
      by (rule assms)
    show "set (rev (sort_values tie col False xs)) = set (sort_values tie col True xs)"
      by (simp add: set_sort_values)
    have "distinct (sort_values tie col True xs)"
      using assms by (simp add: distinct_map)
    then have "distinct xs"
      by (metis card_distinct distinct_card length_sort_values set_sort_values)
    then show "distinct (rev (sort_values tie col False xs))"
      by (simp add: distinct_sort_values)
    show "sorted (map col (sort_values tie col True xs))"
      by (rule sort_values_sorted_asc)
    show "sorted (map col (rev (sort_values tie col False xs)))"
      using sort_values_sorted_desc [of col tie xs] by (simp add: rev_map)
  qed
  then show ?thesis
    by (metis rev_rev_ident)
qed

text \<open>
  The parameter \<open>tie\<close> leaves no sorting \<^verbatim>\<open>argsort\<close> out: a list of all positions of a
  column, in ascending order of their keys, is the \<open>argsort\<close> of the column for the
  \<open>tie\<close> that ranks each position by its place in that list.
\<close>

lemma position_nth:
  "distinct p \<Longrightarrow> j < length p \<Longrightarrow> length (takeWhile (\<lambda>x. x \<noteq> p ! j) p) = j"
proof (induction p arbitrary: j)
  case Nil
  then show ?case by simp
next
  case (Cons a p)
  then show ?case
    by (cases j) auto
qed

lemma argsort_complete:
  assumes "distinct p" and "set p = {0..<length ks}" and "sorted (map (\<lambda>i. ks ! i) p)"
  shows "argsort (\<lambda>ks i. length (takeWhile (\<lambda>x. x \<noteq> i) p)) ks = p"
proof -
  let ?f = "\<lambda>i. length (takeWhile (\<lambda>x. x \<noteq> i) p)"
  have len: "length p = length ks"
    using assms(1,2) distinct_card [of p] by simp
  have pos: "map ?f p = [0..<length p]"
    using assms(1) by (intro nth_equalityI) (simp_all add: position_nth)
  have "sort_key ?f [0..<length ks] = p"
  proof (rule sorted_distinct_keys_unique [where f = ?f])
    show "distinct (map ?f p)" "sorted (map ?f p)"
      unfolding pos by simp_all
    show "set (sort_key ?f [0..<length ks]) = set p"
      using assms(2) by simp
    show "distinct (sort_key ?f [0..<length ks])"
      by simp
    show "sorted (map ?f (sort_key ?f [0..<length ks]))"
      by (rule sorted_sort_key)
  qed
  then show ?thesis
    using assms(3) by (simp add: argsort_def sort_key_id_if_sorted)
qed

text \<open>The groups partition the table: their sizes add up to its number of rows.\<close>

lemma sum_list_group_sizes:
  "distinct ks \<Longrightarrow> col ` set df \<subseteq> set ks \<Longrightarrow>
   sum_list (map (\<lambda>k. length (filter (\<lambda>r. col r = k) df)) ks) = length df"
proof (induction df)
  case Nil
  then show ?case by simp
next
  case (Cons r rs)
  have one: "sum_list (map (\<lambda>k. if col r = k then 1 else 0) ks) = (1::nat)"
    using Cons.prems by (simp add: sum_list_distinct_conv_sum_set)
  have "sum_list (map (\<lambda>k. length (filter (\<lambda>r. col r = k) (r # rs))) ks)
      = sum_list (map (\<lambda>k. (if col r = k then 1 else 0) + length (filter (\<lambda>r. col r = k) rs)) ks)"
    by (intro arg_cong [where f = sum_list] map_cong) auto
  also have "\<dots> = 1 + length rs"
    using Cons by (simp add: sum_list_addf one)
  finally show ?case by simp
qed

lemma sum_list_filter_split:
  "sum_list (map f (filter P xs)) + sum_list (map f (filter (\<lambda>x. \<not> P x) xs)) = sum_list (map f xs)"
  for f :: "'a \<Rightarrow> 'b::comm_monoid_add"
  by (induction xs) (auto simp: ac_simps)

subsection \<open>Q1\<close>

lemma genre_sizes_set: "set (genre_sizes tie df) = (\<lambda>g. (g, rows_with df g)) ` set (map genres df)"
  by (auto simp: genre_sizes_def set_sort_values groupby_keepna_def set_keepna_keys
      group_rows_def rows_with_def image_iff)

lemma genre_sizes_distinct: "distinct (map fst (genre_sizes tie df))"
proof -
  have "distinct (map fst (map (\<lambda>(g, rows). (g, length rows)) (groupby_keepna genres df)))"
    by (simp add: groupby_keepna_def group_rows_def comp_def distinct_keepna_keys)
  then show ?thesis
    unfolding genre_sizes_def by (rule distinct_map_sort_values)
qed

lemma total_eq_length: "total tie df = length df"
proof -
  have "total tie df = sum_list (map (\<lambda>k. length (filter (\<lambda>r. genres r = k) df)) (keepna_keys genres df))"
    by (simp add: total_def genre_sizes_def sum_list_sort_values groupby_keepna_def group_rows_def comp_def)
  also have "\<dots> = length df"
    by (rule sum_list_group_sizes) (simp_all add: distinct_keepna_keys set_keepna_keys)
  finally show ?thesis .
qed

lemma pct_divisor_pos: "0 < pct_divisor tie df"
  by (simp add: pct_divisor_def)

lemma genre_counts_set:
  "set (genre_counts tie df) =
   (\<lambda>g. \<lparr>genre = g, count = rows_with df g, pct = share df g\<rparr>) ` set (map genres df)"
  by (auto simp: genre_counts_def genre_sizes_set share_def pct_divisor_def total_eq_length image_iff)

lemma genre_counts_distinct: "distinct (map genre (genre_counts tie df))"
  using genre_sizes_distinct [of tie df]
  by (simp add: genre_counts_def comp_def case_prod_unfold)

lemma sum_list_pct:
  "sum_list (map (\<lambda>x. 100 * of_nat (f x) / d) xs) = 100 * of_nat (sum_list (map f xs)) / (d::rat)"
  by (induction xs) (auto simp: add_divide_distrib distrib_left)

lemma sum_pct_genre_counts: "df \<noteq> [] \<Longrightarrow> sum_list (map pct (genre_counts tie df)) = 100"
proof -
  assume ne: "df \<noteq> []"
  have "sum_list (map pct (genre_counts tie df))
      = sum_list (map (\<lambda>x. 100 * of_nat (snd x) / of_nat (pct_divisor tie df)) (genre_sizes tie df))"
    by (simp add: genre_counts_def comp_def case_prod_unfold)
  also have "\<dots> = 100 * of_nat (total tie df) / of_nat (pct_divisor tie df)"
    by (simp add: sum_list_pct total_def)
  also have "\<dots> = 100"
  proof -
    from ne have d: "pct_divisor tie df = length df"
      by (cases df) (simp_all add: pct_divisor_def total_eq_length)
    from ne have nz: "(of_nat (length df) :: rat) \<noteq> 0"
      by simp
    show ?thesis
      unfolding d total_eq_length using nz by simp
  qed
  finally show ?thesis .
qed

lemma genre_counts_row:
  "r \<in> set (genre_counts tie df) \<Longrightarrow>
   genre r \<in> set (map genres df) \<and> count r = rows_with df (genre r) \<and> pct r = share df (genre r)"
  by (auto simp: genre_counts_set)

lemma share_nonneg: "0 \<le> share df g"
  by (simp add: share_def)

lemma major_set:
  "set (major tie df p) =
   {\<lparr>genre = g, count = rows_with df g, pct = share df g\<rparr> | g.
      g \<in> set (map genres df) \<and> p \<le> share df g}"
  by (auto simp: major_def genre_counts_set)

lemma major_distinct: "distinct (map genre (major tie df p))"
  unfolding major_def by (rule distinct_map_filter) (rule genre_counts_distinct)

lemma minor_distinct: "distinct (map genre (minor tie df p))"
  unfolding minor_def by (rule distinct_map_filter) (rule genre_counts_distinct)

lemma minor_genres:
  "set (map genre (minor tie df p)) = {g \<in> set (map genres df). share df g < p}"
  by (force simp: minor_def genre_counts_set image_iff)

lemma minor_count_sum:
  "sum_list (map count (minor tie df p)) =
   (\<Sum>g\<in>{g \<in> set (map genres df). share df g < p}. rows_with df g)"
proof -
  have "map count (minor tie df p) = map (rows_with df) (map genre (minor tie df p))"
    by (auto simp: minor_def dest: genre_counts_row)
  then have "sum_list (map count (minor tie df p)) = sum (rows_with df) (set (map genre (minor tie df p)))"
    by (simp only: sum_list_distinct_conv_sum_set [OF minor_distinct])
  then show ?thesis by (simp only: minor_genres)
qed

lemma minor_pct_sum:
  "sum_list (map pct (minor tie df p)) =
   (\<Sum>g\<in>{g \<in> set (map genres df). share df g < p}. share df g)"
proof -
  have "map pct (minor tie df p) = map (share df) (map genre (minor tie df p))"
    by (auto simp: minor_def dest: genre_counts_row)
  then have "sum_list (map pct (minor tie df p)) = sum (share df) (set (map genre (minor tie df p)))"
    by (simp only: sum_list_distinct_conv_sum_set [OF minor_distinct])
  then show ?thesis by (simp only: minor_genres)
qed

lemma minor_empty_iff: "minor tie df p = [] \<longleftrightarrow> \<not> (\<exists>g\<in>set (map genres df). share df g < p)"
proof -
  have "minor tie df p = [] \<longleftrightarrow> set (map genre (minor tie df p)) = {}"
    by simp
  then show ?thesis
    unfolding minor_genres by blast
qed

lemma genre_counts_example:
  "genre_counts ties_in_order example_df =
    [\<lparr>genre = Some ''Comedy'', count = 2, pct = 200 / 3\<rparr>,
     \<lparr>genre = Some ''Drama'', count = 1, pct = 100 / 3\<rparr>]"
  by code_simp

lemma display_df_example_50:
  "display_df ties_in_order example_df 50 =
    [\<lparr>genre = Some ''Comedy'', count = 2, pct = 200 / 3\<rparr>,
     \<lparr>genre = Some ''Other'', count = 1, pct = 100 / 3\<rparr>]"
  by code_simp

text \<open>
  C1. The genres whose share of the rows is at least the threshold \<open>p\<close> are the rows of
  \<open>major\<close>, each once, with its number of rows and its share. The charted table is
  \<open>major\<close>, followed, exactly when some genre has a share below \<open>p\<close>, by one row
  labelled \<^verbatim>\<open>Other\<close> whose count and percentage are the sums over the genres below
  \<open>p\<close>. No share is negative, so for \<open>p \<le> 0\<close> the charted table is the table of all
  genres and has no added row.
\<close>

theorem q1_composition:
  "distinct (map genre (major tie df p)) \<and>
   set (major tie df p) =
     {\<lparr>genre = g, count = rows_with df g, pct = share df g\<rparr> | g.
        g \<in> set (map genres df) \<and> p \<le> share df g} \<and>
   display_df tie df p = major tie df p @
     (if \<exists>g\<in>set (map genres df). share df g < p
      then [\<lparr>genre = Some ''Other'',
             count = (\<Sum>g\<in>{g \<in> set (map genres df). share df g < p}. rows_with df g),
             pct = (\<Sum>g\<in>{g \<in> set (map genres df). share df g < p}. share df g)\<rparr>]
      else []) \<and>
   (p \<le> 0 \<longrightarrow> display_df tie df p = genre_counts tie df)"
proof -
  have "p \<le> 0 \<Longrightarrow> display_df tie df p = genre_counts tie df"
  proof -
    assume p: "p \<le> 0"
    have "\<And>r. r \<in> set (genre_counts tie df) \<Longrightarrow> p \<le> pct r"
      using p share_nonneg [of df] by (auto simp: genre_counts_set intro: order_trans)
    then have "major tie df p = genre_counts tie df" "minor tie df p = []"
      by (auto simp: major_def minor_def filter_empty_conv not_less)
    then show ?thesis by (simp add: display_df_def)
  qed
  moreover have "display_df tie df p = major tie df p @
     (if \<exists>g\<in>set (map genres df). share df g < p
      then [\<lparr>genre = Some ''Other'',
             count = (\<Sum>g\<in>{g \<in> set (map genres df). share df g < p}. rows_with df g),
             pct = (\<Sum>g\<in>{g \<in> set (map genres df). share df g < p}. share df g)\<rparr>]
      else [])"
    by (simp add: display_df_def minor_empty_iff other_row_def minor_count_sum minor_pct_sum)
  ultimately show ?thesis
    using major_distinct [of tie df p] major_set [of tie df p] by blast
qed

theorem q1_composition_witness:
  "display_df ties_in_order example_df 0 =
    [\<lparr>genre = Some ''Comedy'', count = 2, pct = 200 / 3\<rparr>,
     \<lparr>genre = Some ''Drama'', count = 1, pct = 100 / 3\<rparr>]"
proof -
  have "(0::rat) \<le> 0"
    by simp
  with q1_composition [of ties_in_order example_df 0]
  have "display_df ties_in_order example_df 0 = genre_counts ties_in_order example_df"
    by blast
  then show ?thesis
    by (simp only: genre_counts_example)
qed

lemma display_df_pct_sum:
  "sum_list (map pct (display_df tie df p)) = sum_list (map pct (genre_counts tie df))"
proof -
  have "sum_list (map pct (major tie df p)) + sum_list (map pct (minor tie df p))
      = sum_list (map pct (genre_counts tie df))"
    unfolding major_def minor_def
    using sum_list_filter_split [of pct "\<lambda>r. p \<le> pct r" "genre_counts tie df"]
    by (simp add: not_le)
  then show ?thesis
    by (cases "minor tie df p = []") (simp_all add: display_df_def other_row_def)
qed

text \<open>
  C6. The divisor of the percentages, \<^verbatim>\<open>max(total, 1)\<close>, is never zero: \<^verbatim>\<open>total\<close> is the
  number of rows of the table, and on the empty table the divisor is 1 and the charted
  table is empty. On every table with a row the percentages of the charted rows (the
  major genres and the row \<^verbatim>\<open>Other\<close>, when there is one) add up to exactly 100, in
  rational arithmetic.
\<close>

theorem q1_percentages:
  "pct_divisor tie df \<noteq> 0 \<and> total tie df = length df \<and>
   (df = [] \<longrightarrow> pct_divisor tie df = 1 \<and> display_df tie df p = []) \<and>
   (df \<noteq> [] \<longrightarrow> sum_list (map pct (display_df tie df p)) = 100)"
proof -
  have "display_df tie [] p = []"
    by (simp add: display_df_def major_def minor_def genre_counts_def genre_sizes_def
        groupby_keepna_def keepna_keys_def present_keys_def sort_values_def nargsort_def
        argsort_def List.map_filter_simps)
  moreover have "pct_divisor tie [] = 1"
    by (simp add: pct_divisor_def total_eq_length)
  ultimately show ?thesis
    using pct_divisor_pos [of tie df]
    by (auto simp: total_eq_length display_df_pct_sum sum_pct_genre_counts)
qed

theorem q1_percentages_witness:
  "example_df \<noteq> [] \<and> sum_list (map pct (display_df ties_in_order example_df 50)) = 100 \<and>
   pct_divisor ties_in_order [] = 1 \<and> display_df ties_in_order [] 50 = []"
  using q1_percentages [of ties_in_order example_df 50] q1_percentages [of ties_in_order "[]" 50]
  by (simp add: example_df_def)

subsection \<open>Q2\<close>

lemma agg_groupby_keepna:
  "agg (groupby_keepna col df) =
   map (\<lambda>k. \<lparr>key = k, mean_rating = mean (map rating (filter (\<lambda>r. col r = k) df)),
            n_ratings = length (filter (\<lambda>r. col r = k) df)\<rparr>) (keepna_keys col df)"
  by (simp add: agg_def groupby_keepna_def group_rows_def comp_def)

lemma genre_stats_set:
  "set (genre_stats df) =
   (\<lambda>g. \<lparr>key = g, mean_rating = mean (map rating (filter (\<lambda>r. genres r = g) df)),
          n_ratings = rows_with df g\<rparr>) ` set (map genres df)"
  by (simp add: genre_stats_def agg_groupby_keepna set_keepna_keys rows_with_def)

text \<open>
  C2, as the code has it. The table has one row per genre of the ratings table, with
  the mean rating and the number of rows of the genre; the query keeps exactly the
  rows with at least \<open>m\<close> ratings, in ascending order of the mean rating for an
  ascending sort and in descending order for a descending one. When the mean ratings of
  the kept genres are pairwise different, the descending table is the reverse of the
  ascending one.
\<close>

theorem q2_filter_sort:
  "(\<forall>r\<in>set (filtered tie df m asc). m \<le> int (n_ratings r)) \<and>
   set (filtered tie df m asc) = {r \<in> set (genre_stats df). m \<le> int (n_ratings r)} \<and>
   set (genre_stats df) =
     (\<lambda>g. \<lparr>key = g, mean_rating = mean (map rating (filter (\<lambda>r. genres r = g) df)),
            n_ratings = rows_with df g\<rparr>) ` set (map genres df) \<and>
   sorted (map mean_rating (filtered tie df m True)) \<and>
   sorted (rev (map mean_rating (filtered tie df m False))) \<and>
   (distinct (map mean_rating (filtered tie df m True)) \<longrightarrow>
      filtered tie df m False = rev (filtered tie df m True))"
  unfolding filtered_def
  using sort_values_reverse [of mean_rating tie "filter (\<lambda>r. m \<le> int (n_ratings r)) (genre_stats df)"]
  by (auto simp: set_sort_values sort_values_sorted_asc sort_values_sorted_desc genre_stats_set
      simp del: set_map)

theorem q2_filter_sort_witness:
  "distinct (map mean_rating (filtered ties_in_order example_df 1 True)) \<and>
   filtered ties_in_order example_df 1 False = rev (filtered ties_in_order example_df 1 True) \<and>
   filtered ties_in_order example_df 1 False =
     [\<lparr>key = Some ''Comedy'', mean_rating = 9 / 2, n_ratings = 2\<rparr>,
      \<lparr>key = Some ''Drama'', mean_rating = 3, n_ratings = 1\<rparr>]"
proof -
  have asc: "filtered ties_in_order example_df 1 True =
     [\<lparr>key = Some ''Drama'', mean_rating = 3, n_ratings = 1\<rparr>,
      \<lparr>key = Some ''Comedy'', mean_rating = 9 / 2, n_ratings = 2\<rparr>]"
    by code_simp
  then have d: "distinct (map mean_rating (filtered ties_in_order example_df 1 True))"
    by simp
  with q2_filter_sort [of ties_in_order example_df 1 True]
  have "filtered ties_in_order example_df 1 False = rev (filtered ties_in_order example_df 1 True)"
    by blast
  with d show ?thesis
    by (simp add: asc)
qed

text \<open>
  On the table \<open>tie_df\<close>, of two genres with the same mean rating, the ascending and the
  descending table are the same for every \<open>tie\<close>: the column is its own reverse, so both
  directions sort the same column.
\<close>

lemma genre_stats_tie_df:
  "genre_stats tie_df =
     [\<lparr>key = Some ''Comedy'', mean_rating = 3, n_ratings = 1\<rparr>,
      \<lparr>key = Some ''Drama'', mean_rating = 3, n_ratings = 1\<rparr>]"
  by code_simp

lemma upt_2: "[0..<2] = [0, Suc 0]"
  by (simp add: upt_rec)

lemma argsort_two_equal:
  "argsort tie [k, k] = (if tie [k, k] 0 \<le> tie [k, k] (Suc 0) then [0, Suc 0] else [Suc 0, 0])"
  by (simp add: argsort_def upt_2)

lemma sort_values_two_equal:
  assumes "col x = col y"
  shows "sort_values tie col False [x, y] = sort_values tie col True [x, y]"
  using assms by (simp add: sort_values_def nargsort_def argsort_two_equal upt_2)

lemma filtered_tie_df_same:
  "filtered tie tie_df 0 False = filtered tie tie_df 0 True \<and>
   filtered tie tie_df 0 False \<noteq> rev (filtered tie tie_df 0 True)"
proof -
  let ?c = "\<lparr>key = Some ''Comedy'', mean_rating = 3, n_ratings = 1\<rparr>"
  let ?d = "\<lparr>key = Some ''Drama'', mean_rating = 3, n_ratings = 1\<rparr>"
  have f: "filtered tie tie_df 0 asc = sort_values tie mean_rating asc [?c, ?d]" for asc
    by (simp add: filtered_def genre_stats_tie_df)
  have same: "sort_values tie mean_rating False [?c, ?d] = sort_values tie mean_rating True [?c, ?d]"
    by (rule sort_values_two_equal) simp
  have "sort_values tie mean_rating True [?c, ?d] = [?c, ?d] \<or>
      sort_values tie mean_rating True [?c, ?d] = [?d, ?c]"
    by (simp add: sort_values_def nargsort_def argsort_two_equal)
  then have "sort_values tie mean_rating True [?c, ?d] \<noteq> rev (sort_values tie mean_rating True [?c, ?d])"
    by auto
  with same show ?thesis
    by (simp only: f) simp
qed

text \<open>
  C2 as the claim states it fails: on \<open>tie_df\<close> the descending table is the ascending
  table, not its reverse.
\<close>

theorem q2_reverse_counterexample:
  "filtered ties_in_order tie_df 0 True =
     [\<lparr>key = Some ''Comedy'', mean_rating = 3, n_ratings = 1\<rparr>,
      \<lparr>key = Some ''Drama'', mean_rating = 3, n_ratings = 1\<rparr>] \<and>
   filtered ties_in_order tie_df 0 False =
     [\<lparr>key = Some ''Comedy'', mean_rating = 3, n_ratings = 1\<rparr>,
      \<lparr>key = Some ''Drama'', mean_rating = 3, n_ratings = 1\<rparr>] \<and>
   filtered ties_in_order tie_df 0 False \<noteq> rev (filtered ties_in_order tie_df 0 True)"
  by code_simp

subsection \<open>Q4\<close>

lemma insort_key_lex:
  assumes "sorted_wrt (\<lambda>a b. f a < f b \<or> (f a = f b \<and> g a \<le> g b)) xs"
    and "\<forall>z\<in>set xs. g y \<le> g z"
  shows "sorted_wrt (\<lambda>a b. f a < f b \<or> (f a = f b \<and> g a \<le> g b)) (insort_key f y xs)"
  using assms
proof (induction xs)
  case Nil
  then show ?case by simp
next
  case (Cons x xs)
  show ?case
  proof (cases "f y \<le> f x")
    case True
    have "\<forall>z\<in>set (x # xs). f y < f z \<or> (f y = f z \<and> g y \<le> g z)"
    proof
      fix z assume z: "z \<in> set (x # xs)"
      then have "f x \<le> f z"
        using Cons.prems(1) by auto
      with True have "f y \<le> f z" by simp
      moreover have "g y \<le> g z" using Cons.prems(2) z by blast
      ultimately show "f y < f z \<or> (f y = f z \<and> g y \<le> g z)"
        by auto
    qed
    with True Cons.prems(1) show ?thesis by simp
  next
    case False
    then have "f x < f y" by simp
    moreover have "sorted_wrt (\<lambda>a b. f a < f b \<or> (f a = f b \<and> g a \<le> g b)) (insort_key f y xs)"
      using Cons by simp
    ultimately show ?thesis
      using False Cons.prems(1) by (auto simp: set_insort_key)
  qed
qed

lemma sort_key_lex:
  "sorted (map g xs) \<Longrightarrow>
   sorted_wrt (\<lambda>a b. f a < f b \<or> (f a = f b \<and> g a \<le> g b)) (sort_key f xs)"
proof (induction xs)
  case Nil
  then show ?case by simp
next
  case (Cons x xs)
  then have "\<forall>z\<in>set (sort_key f xs). g x \<le> g z"
    by simp
  with Cons show ?case
    by (simp add: insort_key_lex)
qed

lemma lexsort_desc_sorted:
  "sorted_wrt (\<lambda>a b. mean_rating b < mean_rating a \<or>
       (mean_rating a = mean_rating b \<and> n_ratings b \<le> n_ratings a)) (lexsort_desc xs)"
proof -
  have "sorted (map (\<lambda>r. - int (n_ratings r)) (sort_key (\<lambda>r. - int (n_ratings r)) xs))"
    by (rule sorted_sort_key)
  from sort_key_lex [OF this, of "\<lambda>r. - mean_rating r"] show ?thesis
    by (simp add: lexsort_desc_def)
qed

lemma set_lexsort_desc: "set (lexsort_desc xs) = set xs"
  by (simp add: lexsort_desc_def)

lemma length_lexsort_desc: "length (lexsort_desc xs) = length xs"
  by (simp add: lexsort_desc_def)

lemma agg_groupby:
  "agg (groupby col df) =
   map (\<lambda>k. \<lparr>key = k, mean_rating = mean (map rating (filter (\<lambda>r. col r = k) df)),
            n_ratings = length (filter (\<lambda>r. col r = k) df)\<rparr>) (sort (remdups (map col df)))"
  by (simp add: agg_def groupby_def group_rows_def comp_def)

lemma length_movie_filtered:
  "length (movie_filtered df m) =
   card {k \<in> (\<lambda>r. (movie_id r, title r)) ` set df.
           m \<le> int (length (filter (\<lambda>r. (movie_id r, title r) = k) df))}"
proof -
  have "length (movie_filtered df m) =
      length (filter (\<lambda>k. m \<le> int (length (filter (\<lambda>r. (movie_id r, title r) = k) df)))
        (sort (remdups (map (\<lambda>r. (movie_id r, title r)) df))))"
    by (simp add: movie_filtered_def movie_stats_def agg_groupby filter_map comp_def)
  also have "\<dots> = card {k \<in> (\<lambda>r. (movie_id r, title r)) ` set df.
           m \<le> int (length (filter (\<lambda>r. (movie_id r, title r) = k) df))}"
    by (subst distinct_length_filter) (auto intro: arg_cong [where f = card])
  finally show ?thesis .
qed

text \<open>
  C4. The table of top movies has \<open>min N k\<close> rows, where \<open>k\<close> is the number of movies
  (pairs of identifier and title) with at least \<open>m\<close> ratings; every row is the row of
  such a movie, with its number of ratings and their mean; and the rows are in
  non-increasing order of the mean rating, rows with the same mean in non-increasing
  order of the number of ratings.
\<close>

theorem q4_top_movies:
  "length (top_movies df m N) =
     min N (card {k \<in> (\<lambda>r. (movie_id r, title r)) ` set df.
                    m \<le> int (length (filter (\<lambda>r. (movie_id r, title r) = k) df))}) \<and>
   (\<forall>r\<in>set (top_movies df m N).
      m \<le> int (n_ratings r) \<and>
      n_ratings r = length (filter (\<lambda>x. (movie_id x, title x) = key r) df) \<and>
      mean_rating r = mean (map rating (filter (\<lambda>x. (movie_id x, title x) = key r) df))) \<and>
   sorted_wrt (\<lambda>a b. mean_rating b < mean_rating a \<or>
       (mean_rating a = mean_rating b \<and> n_ratings b \<le> n_ratings a)) (top_movies df m N)"
proof -
  have "length (top_movies df m N) = min N (length (movie_filtered df m))"
    by (simp add: top_movies_def length_lexsort_desc min.commute)
  moreover have "set (top_movies df m N) \<subseteq> set (movie_filtered df m)"
    unfolding top_movies_def using set_take_subset [of N "lexsort_desc (movie_filtered df m)"]
    by (simp add: set_lexsort_desc)
  moreover have "\<forall>r\<in>set (movie_filtered df m).
      m \<le> int (n_ratings r) \<and>
      n_ratings r = length (filter (\<lambda>x. (movie_id x, title x) = key r) df) \<and>
      mean_rating r = mean (map rating (filter (\<lambda>x. (movie_id x, title x) = key r) df))"
    by (auto simp: movie_filtered_def movie_stats_def agg_groupby)
  moreover have "sorted_wrt (\<lambda>a b. mean_rating b < mean_rating a \<or>
       (mean_rating a = mean_rating b \<and> n_ratings b \<le> n_ratings a)) (top_movies df m N)"
    unfolding top_movies_def by (rule sorted_wrt_take) (rule lexsort_desc_sorted)
  ultimately show ?thesis
    by (simp only: length_movie_filtered) blast
qed

theorem q4_top_movies_witness:
  "top_movies example_df 1 5 =
     [\<lparr>key = (10, ''T''), mean_rating = 9 / 2, n_ratings = 2\<rparr>,
      \<lparr>key = (11, ''U''), mean_rating = 3, n_ratings = 1\<rparr>] \<and>
   length (top_movies example_df 2 5) = 1 \<and>
   (2::int) \<le> int (n_ratings (hd (top_movies example_df 2 5))) \<and>
   sorted_wrt (\<lambda>a b. mean_rating b < mean_rating a \<or>
       (mean_rating a = mean_rating b \<and> n_ratings b \<le> n_ratings a)) (top_movies example_df 1 5)"
proof -
  have a: "top_movies example_df 1 5 =
     [\<lparr>key = (10, ''T''), mean_rating = 9 / 2, n_ratings = 2\<rparr>,
      \<lparr>key = (11, ''U''), mean_rating = 3, n_ratings = 1\<rparr>]"
    by code_simp
  have b: "top_movies example_df 2 5 = [\<lparr>key = (10, ''T''), mean_rating = 9 / 2, n_ratings = 2\<rparr>]"
    by code_simp
  from b have "hd (top_movies example_df 2 5) \<in> set (top_movies example_df 2 5)"
    by simp
  with q4_top_movies [of example_df 2 5]
  have "(2::int) \<le> int (n_ratings (hd (top_movies example_df 2 5)))"
    by blast
  moreover from q4_top_movies [of example_df 1 5]
  have "sorted_wrt (\<lambda>a b. mean_rating b < mean_rating a \<or>
       (mean_rating a = mean_rating b \<and> n_ratings b \<le> n_ratings a)) (top_movies example_df 1 5)"
    by blast
  ultimately show ?thesis
    using a b by simp
qed

subsection \<open>Q3\<close>

lemma year_stats_keys: "map key (year_stats df) = sort (remdups (map year df))"
  by (simp add: year_stats_def agg_groupby comp_def)

lemma year_filtered_eq:
  "year_filtered tie df lo hi m =
   filter (\<lambda>r. (lo \<le> key r \<and> key r \<le> hi) \<and> m \<le> int (n_ratings r)) (year_stats df)"
proof -
  have "sorted (map key (year_stats df))" and d: "distinct (map key (year_stats df))"
    by (simp_all add: year_stats_keys)
  then have "sorted (map key (filter (\<lambda>r. (lo \<le> key r \<and> key r \<le> hi) \<and> m \<le> int (n_ratings r)) (year_stats df)))"
    by (intro sorted_filter)
  moreover from d
  have "distinct (map key (filter (\<lambda>r. (lo \<le> key r \<and> key r \<le> hi) \<and> m \<le> int (n_ratings r)) (year_stats df)))"
    by (rule distinct_map_filter)
  ultimately show ?thesis
    unfolding year_filtered_def by (rule sort_values_id)
qed

lemma year_filtered_keys:
  "map key (year_filtered tie df lo hi m) =
   filter (\<lambda>y. lo \<le> y \<and> y \<le> hi \<and> m \<le> int (length (filter (\<lambda>r. year r = y) df)))
     (sort (remdups (map year df)))"
  by (simp add: year_filtered_eq year_stats_def agg_groupby filter_map comp_def)

lemma length_rolling_mean: "length (rolling_mean w xs) = length xs"
  by (simp add: rolling_mean_def)

lemma window_bounds_full:
  assumes "0 < w" and "i < n"
  shows "window_bounds n w i =
    (if w div 2 \<le> i \<and> i + (w - 1) div 2 < n then (i - w div 2, i - w div 2 + w)
     else window_bounds n w i) \<and>
    (w \<le> snd (window_bounds n w i) - fst (window_bounds n w i) \<longleftrightarrow>
       w div 2 \<le> i \<and> i + (w - 1) div 2 < n)"
proof -
  have a: "(int w - 1) div 2 = int ((w - 1) div 2)"
    using assms(1) by (simp add: zdiv_int of_nat_diff)
  have b: "int i + 1 + int ((w - 1) div 2) - int w = int i - int (w div 2)"
    using assms(1) by (simp add: zdiv_int)
  show ?thesis
    unfolding window_bounds_def Let_def a b clip_def
    using assms by (auto simp: min_def max_def) 
qed


lemma sum_list_take_drop:
  fixes xs :: "rat list"
  assumes "s + w \<le> length xs" and "0 < w"
  shows "sum_list (take w (drop s xs)) = (\<Sum>j = s..s + w - 1. xs ! j)"
proof -
  have len: "length (take w (drop s xs)) = w"
    using assms(1) by simp
  have "sum_list (take w (drop s xs)) = (\<Sum>j = 0..<w. take w (drop s xs) ! j)"
    using sum_list_sum_nth [of "take w (drop s xs)"] by (simp only: len)
  also have "\<dots> = (\<Sum>j = 0..<w. xs ! (j + s))"
    using assms(1) by (intro sum.cong) (simp_all add: add.commute)
  also have "\<dots> = (\<Sum>j = 0 + s..<w + s. xs ! j)"
    by (rule sum.shift_bounds_nat_ivl [symmetric])
  also have "{0 + s..<w + s} = {s..s + w - 1}"
    using assms(2) by auto
  finally show ?thesis .
qed

lemma rolling_mean_unfold:
  assumes "i < length xs"
  shows "rolling_mean w xs ! i =
    (let win = take (snd (window_bounds (length xs) w i) - fst (window_bounds (length xs) w i))
                 (drop (fst (window_bounds (length xs) w i)) xs)
     in if w \<le> length win then Some (sum_list win / of_nat (length win)) else None)"
  using assms by (simp add: rolling_mean_def case_prod_unfold)

lemma window_size_split: "0 < w \<Longrightarrow> w div 2 + (w - 1) div 2 + 1 = (w::nat)"
  by presburger

lemma rolling_mean_nth:
  assumes "0 < w" and "i < length xs"
  shows "rolling_mean w xs ! i =
    (if w div 2 \<le> i \<and> i + (w - 1) div 2 < length xs
     then Some ((\<Sum>j = i - w div 2..i + (w - 1) div 2. xs ! j) / of_nat w)
     else None)"
proof (cases "w div 2 \<le> i \<and> i + (w - 1) div 2 < length xs")
  case True
  with window_bounds_full [OF assms]
  have wb: "window_bounds (length xs) w i = (i - w div 2, i - w div 2 + w)"
    by simp
  from True window_size_split [OF assms(1)]
  have le: "i - w div 2 + w \<le> length xs" and eq: "i - w div 2 + w - 1 = i + (w - 1) div 2"
    by linarith+
  have len: "length (take w (drop (i - w div 2) xs)) = w"
    using le by simp
  have "rolling_mean w xs ! i = Some (sum_list (take w (drop (i - w div 2) xs)) / of_nat w)"
    unfolding rolling_mean_unfold [OF assms(2)] wb Let_def
    by (simp only: fst_conv snd_conv add_diff_cancel_left' len order_refl if_True)
  also have "sum_list (take w (drop (i - w div 2) xs)) =
      (\<Sum>j = i - w div 2..i + (w - 1) div 2. xs ! j)"
    using sum_list_take_drop [OF le assms(1)] by (simp only: eq)
  finally show ?thesis
    using True by simp
next
  case False
  with window_bounds_full [OF assms]
  have small: "\<not> w \<le> snd (window_bounds (length xs) w i) - fst (window_bounds (length xs) w i)"
    by blast
  have "length (take (snd (window_bounds (length xs) w i) - fst (window_bounds (length xs) w i))
                 (drop (fst (window_bounds (length xs) w i)) xs))
      \<le> snd (window_bounds (length xs) w i) - fst (window_bounds (length xs) w i)"
    by simp
  with small have "\<not> w \<le> length (take (snd (window_bounds (length xs) w i) - fst (window_bounds (length xs) w i))
                 (drop (fst (window_bounds (length xs) w i)) xs))"
    by linarith
  then have "rolling_mean w xs ! i = None"
    unfolding rolling_mean_unfold [OF assms(2)] Let_def by (simp only: if_False)
  with False show ?thesis
    by simp
qed

lemma year_smoothed_cols:
  "map year_key (year_smoothed tie df lo hi m w) = map key (year_filtered tie df lo hi m) \<and>
   map year_mean_rating (year_smoothed tie df lo hi m w) = map mean_rating (year_filtered tie df lo hi m) \<and>
   map year_n_ratings (year_smoothed tie df lo hi m w) = map n_ratings (year_filtered tie df lo hi m) \<and>
   map mean_rating_smoothed (year_smoothed tie df lo hi m w) =
     (if 1 < w \<and> year_filtered tie df lo hi m \<noteq> []
      then rolling_mean w (map mean_rating (year_filtered tie df lo hi m))
      else map (\<lambda>r. Some (mean_rating r)) (year_filtered tie df lo hi m))"
proof -
  define yf where "yf = year_filtered tie df lo hi m"
  define sm where "sm = (if 1 < w \<and> yf \<noteq> [] then rolling_mean w (map mean_rating yf)
      else map (\<lambda>r. Some (mean_rating r)) yf)"
  have len: "length yf = length sm"
    by (simp add: sm_def length_rolling_mean)
  have out: "year_smoothed tie df lo hi m w =
      map (\<lambda>(r, s). \<lparr>year_key = key r, year_mean_rating = mean_rating r,
                       year_n_ratings = n_ratings r, mean_rating_smoothed = s\<rparr>) (zip yf sm)"
    by (simp add: year_smoothed_def Let_def yf_def sm_def)
  have "map year_key (year_smoothed tie df lo hi m w) = map key (map fst (zip yf sm))"
    by (simp add: out comp_def case_prod_unfold)
  moreover have "map year_mean_rating (year_smoothed tie df lo hi m w) = map mean_rating (map fst (zip yf sm))"
    by (simp add: out comp_def case_prod_unfold)
  moreover have "map year_n_ratings (year_smoothed tie df lo hi m w) = map n_ratings (map fst (zip yf sm))"
    by (simp add: out comp_def case_prod_unfold)
  moreover have "map mean_rating_smoothed (year_smoothed tie df lo hi m w) = map snd (zip yf sm)"
    by (simp add: out comp_def case_prod_unfold)
  ultimately show ?thesis
    using len by (simp only: map_fst_zip map_snd_zip) (simp add: yf_def sm_def)
qed

lemma year_filtered_rows:
  "r \<in> set (year_filtered tie df lo hi m) \<Longrightarrow>
   n_ratings r = length (filter (\<lambda>x. year x = key r) df) \<and>
   mean_rating r = mean (map rating (filter (\<lambda>x. year x = key r) df))"
  by (auto simp: year_filtered_eq year_stats_def agg_groupby)

lemma year_smoothed_rows:
  assumes "r \<in> set (year_smoothed tie df lo hi m w)"
  shows "year_n_ratings r = length (filter (\<lambda>x. year x = year_key r) df) \<and>
         year_mean_rating r = mean (map rating (filter (\<lambda>x. year x = year_key r) df))"
proof -
  from assms obtain q s where "q \<in> set (year_filtered tie df lo hi m)"
    and "r = \<lparr>year_key = key q, year_mean_rating = mean_rating q,
              year_n_ratings = n_ratings q, mean_rating_smoothed = s\<rparr>"
    by (auto simp: year_smoothed_def Let_def dest: set_zip_leftD)
  with year_filtered_rows [of q tie df lo hi m] show ?thesis
    by simp
qed

text \<open>
  C3. The yearly table has one row for each year in \<open>[lo, hi]\<close> with at least \<open>m\<close>
  ratings, and no other, in ascending order of the year, with the number of ratings of
  the year and their mean. The smoothed column has the length of the filtered table.
  For a window \<open>w \<le> 1\<close> it is the column of means itself. For \<open>w > 1\<close> the centred
  window of position \<open>i\<close> is the \<open>w\<close> positions from \<open>i - w div 2\<close> to
  \<open>i + (w - 1) div 2\<close>: where they all lie in the table the smoothed value is the
  arithmetic mean of their \<open>w\<close> mean ratings, and elsewhere there is no smoothed value.
\<close>

theorem q3_year_trend:
  "sorted (map year_key (year_smoothed tie df lo hi m w)) \<and>
   distinct (map year_key (year_smoothed tie df lo hi m w)) \<and>
   set (map year_key (year_smoothed tie df lo hi m w)) =
     {y \<in> set (map year df).
        lo \<le> y \<and> y \<le> hi \<and> m \<le> int (length (filter (\<lambda>r. year r = y) df))} \<and>
   (\<forall>r\<in>set (year_smoothed tie df lo hi m w).
      year_n_ratings r = length (filter (\<lambda>x. year x = year_key r) df) \<and>
      year_mean_rating r = mean (map rating (filter (\<lambda>x. year x = year_key r) df))) \<and>
   length (map mean_rating_smoothed (year_smoothed tie df lo hi m w)) =
     length (year_filtered tie df lo hi m) \<and>
   map year_mean_rating (year_smoothed tie df lo hi m w) =
     map mean_rating (year_filtered tie df lo hi m) \<and>
   (w \<le> 1 \<longrightarrow>
      map mean_rating_smoothed (year_smoothed tie df lo hi m w) =
      map (\<lambda>r. Some (year_mean_rating r)) (year_smoothed tie df lo hi m w)) \<and>
   (1 < w \<longrightarrow>
      (\<forall>i<length (year_smoothed tie df lo hi m w).
         mean_rating_smoothed (year_smoothed tie df lo hi m w ! i) =
           (if w div 2 \<le> i \<and> i + (w - 1) div 2 < length (year_smoothed tie df lo hi m w)
            then Some ((\<Sum>j = i - w div 2..i + (w - 1) div 2.
                          year_mean_rating (year_smoothed tie df lo hi m w ! j)) / of_nat w)
            else None)))"
proof -
  define out where "out = year_smoothed tie df lo hi m w"
  define yf where "yf = year_filtered tie df lo hi m"
  note cols = year_smoothed_cols [of tie df lo hi m w, folded out_def yf_def]
  have len: "length out = length yf"
    using cols by (metis length_map)
  have keys: "map year_key out =
      filter (\<lambda>y. lo \<le> y \<and> y \<le> hi \<and> m \<le> int (length (filter (\<lambda>r. year r = y) df)))
        (sort (remdups (map year df)))"
    using cols by (simp add: yf_def year_filtered_keys)
  have a: "sorted (map year_key out)" "distinct (map year_key out)"
    "set (map year_key out) =
     {y \<in> set (map year df).
        lo \<le> y \<and> y \<le> hi \<and> m \<le> int (length (filter (\<lambda>r. year r = y) df))}"
    unfolding keys by (auto intro: sorted_filter [where f = "\<lambda>x. x", simplified])
  have b: "\<forall>r\<in>set out.
      year_n_ratings r = length (filter (\<lambda>x. year x = year_key r) df) \<and>
      year_mean_rating r = mean (map rating (filter (\<lambda>x. year x = year_key r) df))"
    unfolding out_def using year_smoothed_rows by blast
  have c: "length (map mean_rating_smoothed out) = length yf"
    using len by simp
  have d: "w \<le> 1 \<Longrightarrow> map mean_rating_smoothed out = map (\<lambda>r. Some (year_mean_rating r)) out"
  proof -
    assume "w \<le> 1"
    then have "map mean_rating_smoothed out = map Some (map mean_rating yf)"
      using cols by (simp add: comp_def)
    also have "\<dots> = map Some (map year_mean_rating out)"
      using cols by simp
    finally show ?thesis by (simp add: comp_def)
  qed
  have e: "mean_rating_smoothed (out ! i) =
           (if w div 2 \<le> i \<and> i + (w - 1) div 2 < length out
            then Some ((\<Sum>j = i - w div 2..i + (w - 1) div 2. year_mean_rating (out ! j)) / of_nat w)
            else None)" if w: "1 < w" and i: "i < length out" for i
  proof -
    from i len have ne: "yf \<noteq> []" by auto
    have raw: "map mean_rating yf = map year_mean_rating out"
      using cols by simp
    have "mean_rating_smoothed (out ! i) = map mean_rating_smoothed out ! i"
      using i by simp
    also have "\<dots> = rolling_mean w (map year_mean_rating out) ! i"
      using cols w ne by (simp add: raw)
    also have "\<dots> =
       (if w div 2 \<le> i \<and> i + (w - 1) div 2 < length out
        then Some ((\<Sum>j = i - w div 2..i + (w - 1) div 2. map year_mean_rating out ! j) / of_nat w)
        else None)"
      using rolling_mean_nth [of w i "map year_mean_rating out"] w i by simp
    also have "\<dots> =
       (if w div 2 \<le> i \<and> i + (w - 1) div 2 < length out
        then Some ((\<Sum>j = i - w div 2..i + (w - 1) div 2. year_mean_rating (out ! j)) / of_nat w)
        else None)"
    proof (cases "w div 2 \<le> i \<and> i + (w - 1) div 2 < length out")
      case True
      then have "(\<Sum>j = i - w div 2..i + (w - 1) div 2. map year_mean_rating out ! j) =
          (\<Sum>j = i - w div 2..i + (w - 1) div 2. year_mean_rating (out ! j))"
        by (intro sum.cong) auto
      then show ?thesis by simp
    next
      case False
      then show ?thesis by simp
    qed
    finally show ?thesis .
  qed
  from a b c d e cols show ?thesis
    unfolding out_def [symmetric] yf_def [symmetric] by blast
qed


lemma year_smoothed_trend_1:
  "year_smoothed ties_in_order trend_df 1990 1992 1 1 =
     [\<lparr>year_key = 1990, year_mean_rating = 4, year_n_ratings = 1, mean_rating_smoothed = Some 4\<rparr>,
      \<lparr>year_key = 1991, year_mean_rating = 3, year_n_ratings = 1, mean_rating_smoothed = Some 3\<rparr>,
      \<lparr>year_key = 1992, year_mean_rating = 5, year_n_ratings = 1, mean_rating_smoothed = Some 5\<rparr>]"
  by code_simp

lemma year_smoothed_trend_3:
  "year_smoothed ties_in_order trend_df 1990 1992 1 3 =
     [\<lparr>year_key = 1990, year_mean_rating = 4, year_n_ratings = 1, mean_rating_smoothed = None\<rparr>,
      \<lparr>year_key = 1991, year_mean_rating = 3, year_n_ratings = 1, mean_rating_smoothed = Some 4\<rparr>,
      \<lparr>year_key = 1992, year_mean_rating = 5, year_n_ratings = 1, mean_rating_smoothed = None\<rparr>]"
  by code_simp

theorem q3_year_trend_witness:
  "map mean_rating_smoothed (year_smoothed ties_in_order trend_df 1990 1992 1 1) =
     map (\<lambda>r. Some (year_mean_rating r)) (year_smoothed ties_in_order trend_df 1990 1992 1 1) \<and>
   map mean_rating_smoothed (year_smoothed ties_in_order trend_df 1990 1992 1 1) = [Some 4, Some 3, Some 5] \<and>
   map mean_rating_smoothed (year_smoothed ties_in_order trend_df 1990 1992 1 3) = [None, Some 4, None] \<and>
   mean_rating_smoothed (year_smoothed ties_in_order trend_df 1990 1992 1 3 ! 1) =
     Some ((\<Sum>j = 0..2. year_mean_rating (year_smoothed ties_in_order trend_df 1990 1992 1 3 ! j)) / 3)"
proof -
  have "(1::nat) \<le> 1"
    by simp
  with q3_year_trend [of ties_in_order trend_df 1990 1992 1 1]
  have a: "map mean_rating_smoothed (year_smoothed ties_in_order trend_df 1990 1992 1 1) =
     map (\<lambda>r. Some (year_mean_rating r)) (year_smoothed ties_in_order trend_df 1990 1992 1 1)"
    by blast
  have "(1::nat) < 3" and "1 < length (year_smoothed ties_in_order trend_df 1990 1992 1 3)"
    unfolding year_smoothed_trend_3 by simp_all
  with q3_year_trend [of ties_in_order trend_df 1990 1992 1 3]
  have "mean_rating_smoothed (year_smoothed ties_in_order trend_df 1990 1992 1 3 ! 1) =
      (if 3 div 2 \<le> (1::nat) \<and> 1 + (3 - 1) div 2 < length (year_smoothed ties_in_order trend_df 1990 1992 1 3)
       then Some ((\<Sum>j = 1 - 3 div 2..1 + (3 - 1) div 2.
              year_mean_rating (year_smoothed ties_in_order trend_df 1990 1992 1 3 ! j)) / of_nat 3)
       else None)"
    by blast
  moreover have "3 div 2 \<le> (1::nat) \<and> 1 + (3 - 1) div 2 < length (year_smoothed ties_in_order trend_df 1990 1992 1 3)"
    unfolding year_smoothed_trend_3 by simp
  moreover have "(1::nat) - 3 div 2 = 0" "(1::nat) + (3 - 1) div 2 = 2"
    by simp_all
  ultimately have b: "mean_rating_smoothed (year_smoothed ties_in_order trend_df 1990 1992 1 3 ! 1) =
     Some ((\<Sum>j = 0..2. year_mean_rating (year_smoothed ties_in_order trend_df 1990 1992 1 3 ! j)) / 3)"
    by (simp only: if_True simp_thms of_nat_numeral)
  have c: "map mean_rating_smoothed (year_smoothed ties_in_order trend_df 1990 1992 1 1) = [Some 4, Some 3, Some 5]"
    "map mean_rating_smoothed (year_smoothed ties_in_order trend_df 1990 1992 1 3) = [None, Some 4, None]"
    unfolding year_smoothed_trend_1 year_smoothed_trend_3 by simp_all
  from a b c show ?thesis
    by (intro conjI)
qed

subsection \<open>Q7\<close>

lemma split_on_nonempty: "split_on sep s \<noteq> []"
  by (induction s) (auto split: list.splits)

lemma split_on_no_sep: "t \<in> set (split_on sep s) \<Longrightarrow> sep \<notin> set t"
proof (induction s arbitrary: t)
  case Nil
  then show ?case by simp
next
  case (Cons c cs)
  then show ?case
    by (cases "split_on sep cs") (auto split: if_splits)
qed

lemma join_split_on: "join_on sep (split_on sep s) = s"
proof (induction s)
  case Nil
  then show ?case by simp
next
  case (Cons c cs)
  then show ?case
  proof (cases "split_on sep cs")
    case Nil
    then show ?thesis using split_on_nonempty [of sep cs] by simp
  next
    case (Cons t ts)
    with Cons.IH show ?thesis
      by (cases ts) auto
  qed
qed

lemma split_on_plain: "sep \<notin> set a \<Longrightarrow> split_on sep a = [a]"
  by (induction a) auto

lemma split_on_append: "sep \<notin> set a \<Longrightarrow> split_on sep (a @ sep # b) = a # split_on sep b"
  by (induction a) auto

lemma split_on_two:
  "sep \<notin> set a \<Longrightarrow> sep \<notin> set b \<Longrightarrow> split_on sep (a @ sep # b) = [a, b]"
  by (simp add: split_on_append split_on_plain)

lemma explode_row_filled:
  "explode_row (i, r\<lparr>genres := Some s\<rparr>, Some (split_on sep s)) =
   map (\<lambda>t. (i, r\<lparr>genres := Some t\<rparr>)) (split_on sep s)"
  using split_on_nonempty [of sep s]
  by (cases "split_on sep s") (simp_all add: explode_row_def)

lemma assign_split_fillna:
  "assign_split (fillna_genres df) =
   map (\<lambda>(i, r). (i, r\<lparr>genres := Some (filled_genre r)\<rparr>, Some (split_on CHR ''|'' (filled_genre r))))
     (enumerate 0 df)"
  by (simp add: assign_split_def fillna_genres_def enumerate_map_upt filled_genre_def comp_def
      enumerate_eq_zip map_zip_map2 case_prod_unfold)

lemma df_ec_cleaned_eq:
  "df_ec_cleaned df =
   concat (map (\<lambda>(i, r). map (\<lambda>t. (i, r\<lparr>genres := Some t\<rparr>)) (split_on CHR ''|'' (filled_genre r)))
     (enumerate 0 df))"
  by (simp add: df_ec_cleaned_def explode_def assign_split_fillna comp_def case_prod_unfold
      explode_row_filled)


lemma exploded_index_range:
  "x \<in> set (concat (map (\<lambda>(j, r). map (\<lambda>t. (j, g r t)) (h r)) (enumerate n xs))) \<Longrightarrow>
   n \<le> fst x \<and> fst x < n + length xs"
  by (induction xs arbitrary: n) fastforce+

lemma exploded_filter_before:
  assumes "i < n"
  shows "filter (\<lambda>x. fst x = i)
           (concat (map (\<lambda>(j, r). map (\<lambda>t. (j, g r t)) (h r)) (enumerate n xs))) = []"
  using assms exploded_index_range [of _ g h n xs]
  by (fastforce simp: filter_empty_conv)

lemma exploded_filter:
  "n \<le> i \<Longrightarrow> i < n + length xs \<Longrightarrow>
   filter (\<lambda>x. fst x = i)
     (concat (map (\<lambda>(j, r). map (\<lambda>t. (j, g r t)) (h r)) (enumerate n xs))) =
   map (\<lambda>t. (i, g (xs ! (i - n)) t)) (h (xs ! (i - n)))"
proof (induction xs arbitrary: n)
  case Nil
  then show ?case by simp
next
  case (Cons x xs)
  show ?case
  proof (cases "i = n")
    case True
    then have "filter (\<lambda>x. fst x = i)
        (concat (map (\<lambda>(j, r). map (\<lambda>t. (j, g r t)) (h r)) (enumerate (Suc n) xs))) = []"
      by (intro exploded_filter_before) simp
    with True show ?thesis
      by (simp add: filter_map comp_def)
  next
    case False
    with Cons.prems have "Suc n \<le> i" "i < Suc n + length xs"
      by simp_all
    from Cons.IH [OF this] False Cons.prems show ?thesis
      by (simp add: filter_map comp_def Suc_diff_le diff_Suc)
  qed
qed

lemma exploded_sorted:
  "sorted (map fst (concat (map (\<lambda>(j, r). map (\<lambda>t. (j, g r t)) (h r)) (enumerate n xs))))"
proof (induction xs arbitrary: n)
  case Nil
  then show ?case by simp
next
  case (Cons x xs)
  have "\<forall>y\<in>set (concat (map (\<lambda>(j, r). map (\<lambda>t. (j, g r t)) (h r)) (enumerate (Suc n) xs))). n \<le> fst y"
    using exploded_index_range [of _ g h "Suc n" xs] by fastforce
  with Cons [of "Suc n"] show ?case
    by (auto simp: sorted_append comp_def map_replicate_const)
qed


lemma cleaned_rows_of:
  assumes "i < length df"
  shows "filter (\<lambda>x. fst x = i) (df_ec_cleaned df) =
    map (\<lambda>t. (i, (df ! i)\<lparr>genres := Some t\<rparr>)) (split_on CHR ''|'' (filled_genre (df ! i)))"
  unfolding df_ec_cleaned_eq
  using exploded_filter [of 0 i df "\<lambda>r t. r\<lparr>genres := Some t\<rparr>" "\<lambda>r. split_on CHR ''|'' (filled_genre r)"]
    assms
  by simp

text \<open>
  C5. Line 209 replaces a missing genre by \<^verbatim>\<open>"(no genres listed)"\<close> and leaves every
  other genre as it is. The tokens of a genre string are its pieces between the pipes:
  there is at least one, none contains a pipe, and joined by pipes they give the string
  back. The cleaned table keeps the order of the rows of the table; the rows it derives
  from row \<open>i\<close> are one row per token of the filled genre of that row, in the order of
  the tokens, each the source row with that token for its genre and every other column
  as it is. So a row whose genre is \<open>a|b\<close>, with no pipe in \<open>a\<close> or \<open>b\<close>, gives
  exactly two rows, with genres \<open>a\<close> and \<open>b\<close>.
\<close>

theorem q7_explode:
  "fillna_genres df = map (\<lambda>r. r\<lparr>genres := Some (filled_genre r)\<rparr>) df \<and>
   (genres r = None \<longrightarrow> filled_genre r = ''(no genres listed)'') \<and>
   (genres r = Some s \<longrightarrow> filled_genre r = s) \<and>
   split_on CHR ''|'' s \<noteq> [] \<and>
   (\<forall>t\<in>set (split_on CHR ''|'' s). CHR ''|'' \<notin> set t) \<and>
   join_on CHR ''|'' (split_on CHR ''|'' s) = s \<and>
   sorted (map fst (df_ec_cleaned df)) \<and>
   (\<forall>x\<in>set (df_ec_cleaned df). fst x < length df) \<and>
   (\<forall>i<length df.
      filter (\<lambda>x. fst x = i) (df_ec_cleaned df) =
      map (\<lambda>t. (i, (df ! i)\<lparr>genres := Some t\<rparr>)) (split_on CHR ''|'' (filled_genre (df ! i)))) \<and>
   (i < length df \<longrightarrow> genres (df ! i) = Some (a @ ''|'' @ b) \<longrightarrow>
      CHR ''|'' \<notin> set a \<longrightarrow> CHR ''|'' \<notin> set b \<longrightarrow>
      filter (\<lambda>x. fst x = i) (df_ec_cleaned df) =
        [(i, (df ! i)\<lparr>genres := Some a\<rparr>), (i, (df ! i)\<lparr>genres := Some b\<rparr>)])"
proof -
  have "fillna_genres df = map (\<lambda>r. r\<lparr>genres := Some (filled_genre r)\<rparr>) df"
    by (simp add: fillna_genres_def filled_genre_def)
  moreover have "sorted (map fst (df_ec_cleaned df))"
    unfolding df_ec_cleaned_eq by (rule exploded_sorted)
  moreover have "\<forall>x\<in>set (df_ec_cleaned df). fst x < length df"
    unfolding df_ec_cleaned_eq
    using exploded_index_range [of _ "\<lambda>r t. r\<lparr>genres := Some t\<rparr>"
        "\<lambda>r. split_on CHR ''|'' (filled_genre r)" 0 df]
    by auto
  moreover have "filter (\<lambda>x. fst x = i) (df_ec_cleaned df) =
        [(i, (df ! i)\<lparr>genres := Some a\<rparr>), (i, (df ! i)\<lparr>genres := Some b\<rparr>)]"
    if "i < length df" "genres (df ! i) = Some (a @ ''|'' @ b)"
      "CHR ''|'' \<notin> set a" "CHR ''|'' \<notin> set b"
  proof -
    from that(2) have "filled_genre (df ! i) = a @ CHR ''|'' # b"
      by (simp add: filled_genre_def)
    with that show ?thesis
      by (simp add: cleaned_rows_of split_on_two)
  qed
  ultimately show ?thesis
    using split_on_nonempty [of "CHR ''|''" s] split_on_no_sep [of _ "CHR ''|''" s]
      join_split_on [of "CHR ''|''" s] cleaned_rows_of [of _ df]
    by (auto simp: filled_genre_def)
qed

lemma df_ec_cleaned_pipe:
  "df_ec_cleaned pipe_df =
    [(0, \<lparr>user_id = 1, movie_id = 10, title = ''T'', genres = Some ''Comedy'', rating = 4,
       year = 1990, age = 20\<rparr>),
     (1, \<lparr>user_id = 2, movie_id = 11, title = ''U'', genres = Some ''(no genres listed)'', rating = 3,
       year = 1991, age = 30\<rparr>),
     (2, \<lparr>user_id = 3, movie_id = 12, title = ''V'', genres = Some ''A'', rating = 5,
       year = 1992, age = 30\<rparr>),
     (2, \<lparr>user_id = 3, movie_id = 12, title = ''V'', genres = Some ''B'', rating = 5,
       year = 1992, age = 30\<rparr>)]"
  by code_simp

theorem q7_explode_witness:
  "filter (\<lambda>x. fst x = 2) (df_ec_cleaned pipe_df) =
     [(2, (pipe_df ! 2)\<lparr>genres := Some ''A''\<rparr>), (2, (pipe_df ! 2)\<lparr>genres := Some ''B''\<rparr>)] \<and>
   filter (\<lambda>x. fst x = 1) (df_ec_cleaned pipe_df) =
     [(1, (pipe_df ! 1)\<lparr>genres := Some ''(no genres listed)''\<rparr>)]"
proof -
  have len: "2 < length pipe_df" "1 < length pipe_df"
    by (simp_all add: pipe_df_def)
  have g: "genres (pipe_df ! 2) = Some (''A'' @ ''|'' @ ''B'')" "genres (pipe_df ! 1) = None"
    by (simp_all add: pipe_df_def)
  have n: "CHR ''|'' \<notin> set ''A''" "CHR ''|'' \<notin> set ''B''"
    by simp_all
  from q7_explode [of pipe_df "pipe_df ! 1" _ 2 "''A''" "''B''"] len g n
  have a: "filter (\<lambda>x. fst x = 2) (df_ec_cleaned pipe_df) =
     [(2, (pipe_df ! 2)\<lparr>genres := Some ''A''\<rparr>), (2, (pipe_df ! 2)\<lparr>genres := Some ''B''\<rparr>)]"
    and f: "filled_genre (pipe_df ! 1) = ''(no genres listed)''"
    by blast+
  from q7_explode [of pipe_df] len
  have "filter (\<lambda>x. fst x = 1) (df_ec_cleaned pipe_df) =
      map (\<lambda>t. (1, (pipe_df ! 1)\<lparr>genres := Some t\<rparr>)) (split_on CHR ''|'' (filled_genre (pipe_df ! 1)))"
    by blast
  then have b: "filter (\<lambda>x. fst x = 1) (df_ec_cleaned pipe_df) =
     [(1, (pipe_df ! 1)\<lparr>genres := Some ''(no genres listed)''\<rparr>)]"
    unfolding f by simp
  from a b show ?thesis
    by (intro conjI)
qed

subsection \<open>Q5\<close>

lemma agg_groupby_dropna:
  "agg (groupby_dropna col df) =
   map (\<lambda>k. \<lparr>key = k, mean_rating = mean (map rating (filter (\<lambda>r. col r = Some k) df)),
            n_ratings = length (filter (\<lambda>r. col r = Some k) df)\<rparr>) (present_keys col df)"
  by (simp add: agg_def groupby_dropna_def comp_def)

lemma age_stats_keys:
  "map key (age_stats df sel) =
   present_keys (\<lambda>r. map_option (\<lambda>g. (age r, g)) (genres r))
     (filter (\<lambda>r. genres r \<in> set sel) df)"
  by (simp add: age_stats_def agg_groupby_dropna comp_def)

lemma age_genre_key:
  "map_option (\<lambda>g. (age r, g)) (genres r) = Some k \<longleftrightarrow> age r = fst k \<and> genres r = Some (snd k)"
  by (cases "genres r"; cases k) auto

lemma age_stats_key_set:
  "set (map key (age_stats df sel)) =
   {(age r, g) | r g. r \<in> set df \<and> genres r = Some g \<and> Some g \<in> set sel}"
proof -
  have "k \<in> set (map key (age_stats df sel)) \<longleftrightarrow>
      k \<in> {(age r, g) | r g. r \<in> set df \<and> genres r = Some g \<and> Some g \<in> set sel}" for k
  proof -
    have "k \<in> set (map key (age_stats df sel)) \<longleftrightarrow>
        Some k \<in> (\<lambda>r. map_option (\<lambda>g. (age r, g)) (genres r)) ` {r \<in> set df. genres r \<in> set sel}"
      unfolding age_stats_keys set_present_keys by simp
    also have "\<dots> \<longleftrightarrow>
        (\<exists>r\<in>set df. genres r \<in> set sel \<and> map_option (\<lambda>g. (age r, g)) (genres r) = Some k)"
      unfolding image_iff Bex_def mem_Collect_eq by metis
    also have "\<dots> \<longleftrightarrow> (\<exists>r\<in>set df. Some (snd k) \<in> set sel \<and> age r = fst k \<and> genres r = Some (snd k))"
      unfolding age_genre_key by metis
    also have "\<dots> \<longleftrightarrow> k \<in> {(age r, g) | r g. r \<in> set df \<and> genres r = Some g \<and> Some g \<in> set sel}"
      by (cases k) auto
    finally show ?thesis .
  qed
  then show ?thesis by blast
qed

lemma age_stats_row:
  assumes "x \<in> set (age_stats df sel)"
  shows "n_ratings x = length (filter (\<lambda>r. age r = fst (key x) \<and> genres r = Some (snd (key x))) df) \<and>
         mean_rating x =
           mean (map rating (filter (\<lambda>r. age r = fst (key x) \<and> genres r = Some (snd (key x))) df)) \<and>
         0 < n_ratings x"
proof -
  let ?col = "\<lambda>r. map_option (\<lambda>g. (age r, g)) (genres r)"
  let ?sel = "filter (\<lambda>r. genres r \<in> set sel) df"
  from assms obtain k where k: "k \<in> set (present_keys ?col ?sel)"
    and x: "x = \<lparr>key = k, mean_rating = mean (map rating (filter (\<lambda>r. ?col r = Some k) ?sel)),
            n_ratings = length (filter (\<lambda>r. ?col r = Some k) ?sel)\<rparr>"
    by (auto simp: age_stats_def agg_groupby_dropna)
  from k have "Some k \<in> ?col ` set ?sel"
    by (simp add: set_present_keys)
  then have "Some k \<in> ?col ` {r \<in> set df. genres r \<in> set sel}"
    by simp
  then obtain r where r: "r \<in> set df" "genres r \<in> set sel" "?col r = Some k"
    unfolding image_iff Bex_def mem_Collect_eq by metis
  then have in_sel: "Some (snd k) \<in> set sel"
    unfolding age_genre_key by metis
  have "filter (\<lambda>r. ?col r = Some k) ?sel =
      filter (\<lambda>r. age r = fst k \<and> genres r = Some (snd k)) df"
    unfolding age_genre_key filter_filter using in_sel by (intro filter_cong) auto
  moreover have "r \<in> set (filter (\<lambda>r. ?col r = Some k) ?sel)"
    using r by simp
  ultimately show ?thesis
    using x by (auto simp: filter_empty_conv)
qed

text \<open>
  C10. The query is a total function of the table and of the list of selected values,
  of any length. Its table has exactly one row for each pair of an age and a genre
  label that occurs in a row of the ratings table whose genre is selected, in ascending
  order of the pairs, and no other row; the row holds the number of those ratings
  (never zero) and their mean. The empty selection gives the empty table. A row
  without a genre has no genre label and forms no group, selected or not.
\<close>

theorem q5_age_stats:
  "sorted (map key (age_stats df sel)) \<and>
   distinct (map key (age_stats df sel)) \<and>
   set (map key (age_stats df sel)) =
     {(age r, g) | r g. r \<in> set df \<and> genres r = Some g \<and> Some g \<in> set sel} \<and>
   (\<forall>x\<in>set (age_stats df sel).
      n_ratings x = length (filter (\<lambda>r. age r = fst (key x) \<and> genres r = Some (snd (key x))) df) \<and>
      mean_rating x =
        mean (map rating (filter (\<lambda>r. age r = fst (key x) \<and> genres r = Some (snd (key x))) df)) \<and>
      0 < n_ratings x) \<and>
   age_stats df [] = []"
proof -
  have "age_stats df [] = []"
    by (simp add: age_stats_def agg_def groupby_dropna_def present_keys_def List.map_filter_simps)
  moreover have "sorted (map key (age_stats df sel))" "distinct (map key (age_stats df sel))"
    by (simp_all only: age_stats_keys sorted_present_keys distinct_present_keys)
  ultimately show ?thesis
    using age_stats_row [of _ df sel] age_stats_key_set [of df sel]
    by blast
qed

lemma age_stats_example:
  "age_stats example_df [Some ''Comedy'', Some ''Drama'', Some ''Action'', Some ''War'', Some ''Crime''] =
     [\<lparr>key = (20, ''Comedy''), mean_rating = 4, n_ratings = 1\<rparr>,
      \<lparr>key = (20, ''Drama''), mean_rating = 3, n_ratings = 1\<rparr>,
      \<lparr>key = (30, ''Comedy''), mean_rating = 5, n_ratings = 1\<rparr>]"
  by code_simp

theorem q5_age_stats_witness:
  "age_stats example_df [] = [] \<and>
   distinct (map key (age_stats example_df
     [Some ''Comedy'', Some ''Drama'', Some ''Action'', Some ''War'', Some ''Crime''])) \<and>
   map key (age_stats example_df
     [Some ''Comedy'', Some ''Drama'', Some ''Action'', Some ''War'', Some ''Crime'']) =
     [(20, ''Comedy''), (20, ''Drama''), (30, ''Comedy'')] \<and>
   0 < n_ratings (hd (age_stats example_df
     [Some ''Comedy'', Some ''Drama'', Some ''Action'', Some ''War'', Some ''Crime'']))"
proof -
  let ?sel = "[Some ''Comedy'', Some ''Drama'', Some ''Action'', Some ''War'', Some ''Crime'']"
  from q5_age_stats [of example_df "[]"] have a: "age_stats example_df [] = []"
    by blast
  from q5_age_stats [of example_df ?sel] have b: "distinct (map key (age_stats example_df ?sel))"
    by blast
  have "hd (age_stats example_df ?sel) \<in> set (age_stats example_df ?sel)"
    unfolding age_stats_example by simp
  with q5_age_stats [of example_df ?sel] have c: "0 < n_ratings (hd (age_stats example_df ?sel))"
    by blast
  have d: "map key (age_stats example_df ?sel) = [(20, ''Comedy''), (20, ''Drama''), (30, ''Comedy'')]"
    unfolding age_stats_example by simp
  from a b c d show ?thesis
    by (intro conjI)
qed

subsection \<open>The loaded tables\<close>

text \<open>
  C8, as the code has it. The tabs Q1 to Q6 leave both loaded tables as they are. The
  tab Q7 leaves \<^verbatim>\<open>df\<close> as it is and assigns the column \<^verbatim>\<open>genres\<close> of its own table
  \<^verbatim>\<open>df_ec\<close>: the table keeps its rows, in their order, and every other column, and in
  each row a missing genre becomes \<^verbatim>\<open>"(no genres listed)"\<close>; a table without a missing
  genre is left as it is. The exploded table is a new table.
\<close>

theorem tabs_frame:
  "snd (tab_q1 tie_count min_pct s) = s \<and>
   snd (tab_q2 tie_mean min_count ascending s) = s \<and>
   snd (tab_q3 tie_year lo hi min_count_year smooth_window s) = s \<and>
   snd (tab_q4 min_ratings_movie top_n s) = s \<and>
   snd (tab_q5 genres_to_compare s) = s \<and>
   snd (tab_q6 s) = s \<and>
   frame_df (snd (tab_q7 s)) = frame_df s \<and>
   length (frame_df_ec (snd (tab_q7 s))) = length (frame_df_ec s) \<and>
   (\<forall>i<length (frame_df_ec s).
      frame_df_ec (snd (tab_q7 s)) ! i =
        (frame_df_ec s ! i)\<lparr>genres := Some (filled_genre (frame_df_ec s ! i))\<rparr>) \<and>
   ((\<forall>r\<in>set (frame_df_ec s). genres r \<noteq> None) \<longrightarrow> snd (tab_q7 s) = s)"
proof -
  have "(\<forall>r\<in>set (frame_df_ec s). genres r \<noteq> None) \<Longrightarrow> fillna_genres (frame_df_ec s) = frame_df_ec s"
    unfolding fillna_genres_def by (intro map_idI) auto
  then show ?thesis
    by (auto simp: tab_q1_def tab_q2_def tab_q3_def tab_q4_def tab_q5_def tab_q6_def tab_q7_def
        Let_def fillna_genres_def filled_genre_def)
qed

text \<open>
  C8 as the claim states it fails: after the tab Q7 has run on a table with a missing
  genre, the table \<^verbatim>\<open>df_ec\<close> is not the table that was loaded.
\<close>

theorem tab_q7_mutates_counterexample:
  "genres (pipe_df ! 1) = None \<and>
   genres (frame_df_ec (snd (tab_q7 \<lparr>frame_df = pipe_df, frame_df_ec = pipe_df\<rparr>)) ! 1) =
     Some ''(no genres listed)'' \<and>
   frame_df_ec (snd (tab_q7 \<lparr>frame_df = pipe_df, frame_df_ec = pipe_df\<rparr>)) \<noteq> pipe_df"
  by code_simp

theorem tabs_frame_witness:
  "snd (tab_q7 \<lparr>frame_df = pipe_df, frame_df_ec = example_df\<rparr>) =
     \<lparr>frame_df = pipe_df, frame_df_ec = example_df\<rparr> \<and>
   frame_df_ec (snd (tab_q7 \<lparr>frame_df = pipe_df, frame_df_ec = pipe_df\<rparr>)) ! 1 =
     (pipe_df ! 1)\<lparr>genres := Some ''(no genres listed)''\<rparr>"
proof -
  have "\<forall>r\<in>set (frame_df_ec \<lparr>frame_df = pipe_df, frame_df_ec = example_df\<rparr>). genres r \<noteq> None"
    by (simp add: example_df_def)
  with tabs_frame [of _ _ "\<lparr>frame_df = pipe_df, frame_df_ec = example_df\<rparr>"]
  have a: "snd (tab_q7 \<lparr>frame_df = pipe_df, frame_df_ec = example_df\<rparr>) =
     \<lparr>frame_df = pipe_df, frame_df_ec = example_df\<rparr>"
    by blast
  have "1 < length (frame_df_ec \<lparr>frame_df = pipe_df, frame_df_ec = pipe_df\<rparr>)"
    by (simp add: pipe_df_def)
  with tabs_frame [of _ _ "\<lparr>frame_df = pipe_df, frame_df_ec = pipe_df\<rparr>"]
  have "frame_df_ec (snd (tab_q7 \<lparr>frame_df = pipe_df, frame_df_ec = pipe_df\<rparr>)) ! 1 =
      (frame_df_ec \<lparr>frame_df = pipe_df, frame_df_ec = pipe_df\<rparr> ! 1)
        \<lparr>genres := Some (filled_genre (frame_df_ec \<lparr>frame_df = pipe_df, frame_df_ec = pipe_df\<rparr> ! 1))\<rparr>"
    by blast
  moreover have "filled_genre (pipe_df ! 1) = ''(no genres listed)''"
    by (simp add: pipe_df_def filled_genre_def)
  ultimately have b: "frame_df_ec (snd (tab_q7 \<lparr>frame_df = pipe_df, frame_df_ec = pipe_df\<rparr>)) ! 1 =
     (pipe_df ! 1)\<lparr>genres := Some ''(no genres listed)''\<rparr>"
    by simp
  from a b show ?thesis
    by (intro conjI)
qed

subsection \<open>Rows with equal keys\<close>

text \<open>
  The sort of Q4 is numpy's \<^verbatim>\<open>lexsort\<close>, a stable sort: the movies with the same mean
  rating and the same number of ratings stay in the order of the grouped table.
\<close>

lemma lexsort_desc_stable:
  "filter (\<lambda>r. mean_rating r = v \<and> n_ratings r = c) (lexsort_desc xs) =
   filter (\<lambda>r. mean_rating r = v \<and> n_ratings r = c) xs"
proof -
  have "filter (\<lambda>r. mean_rating r = v \<and> n_ratings r = c) (lexsort_desc xs) =
      filter (\<lambda>r. - int (n_ratings r) = - int c)
        (filter (\<lambda>r. - mean_rating r = - v) (lexsort_desc xs))"
    by (simp add: conj_commute)
  also have "\<dots> = filter (\<lambda>r. - int (n_ratings r) = - int c)
        (filter (\<lambda>r. - mean_rating r = - v) (sort_key (\<lambda>r. - int (n_ratings r)) xs))"
    unfolding lexsort_desc_def by (simp only: sort_key_stable)
  also have "\<dots> = filter (\<lambda>r. - mean_rating r = - v)
        (filter (\<lambda>r. - int (n_ratings r) = - int c) (sort_key (\<lambda>r. - int (n_ratings r)) xs))"
    by (simp add: conj_commute)
  also have "\<dots> = filter (\<lambda>r. - mean_rating r = - v) (filter (\<lambda>r. - int (n_ratings r) = - int c) xs)"
    by (simp only: sort_key_stable)
  also have "\<dots> = filter (\<lambda>r. mean_rating r = v \<and> n_ratings r = c) xs"
    by (simp add: conj_commute)
  finally show ?thesis .
qed

lemma filter_take_prefix:
  "filter P (take n xs) = take (length (filter P (take n xs))) (filter P xs)"
proof -
  have "filter P xs = filter P (take n xs) @ filter P (drop n xs)"
    by (metis append_take_drop_id filter_append)
  then show ?thesis
    by simp
qed

text \<open>
  C7, as the code has it. In Q4 the movies with the same mean rating and the same
  number of ratings come in the order they have in the grouped table, which is the
  order of their identifiers and titles, and the cut to the first \<open>N\<close> rows keeps a
  beginning of them. In Q2 the table has no row twice and holds every kept genre of a
  given mean rating; the order of the genres with the same mean rating is the one
  \<open>tie\<close> gives them.
\<close>

theorem tie_order:
  "filter (\<lambda>r. mean_rating r = v \<and> n_ratings r = c) (lexsort_desc (movie_filtered df m)) =
     filter (\<lambda>r. (mean_rating r = v \<and> n_ratings r = c) \<and> m \<le> int (n_ratings r)) (movie_stats df) \<and>
   (\<exists>k. filter (\<lambda>r. mean_rating r = v \<and> n_ratings r = c) (top_movies df m N) =
      take k (filter (\<lambda>r. (mean_rating r = v \<and> n_ratings r = c) \<and> m \<le> int (n_ratings r))
                (movie_stats df))) \<and>
   sorted (map key (movie_stats df)) \<and>
   distinct (filtered tie df m' asc) \<and>
   set (filter (\<lambda>r. mean_rating r = w) (filtered tie df m' asc)) =
     {r \<in> set (genre_stats df). m' \<le> int (n_ratings r) \<and> mean_rating r = w}"
proof -
  have a: "filter (\<lambda>r. mean_rating r = v \<and> n_ratings r = c) (lexsort_desc (movie_filtered df m)) =
     filter (\<lambda>r. (mean_rating r = v \<and> n_ratings r = c) \<and> m \<le> int (n_ratings r)) (movie_stats df)"
    unfolding lexsort_desc_stable movie_filtered_def filter_filter
    by (rule filter_cong) auto
  have "filter (\<lambda>r. mean_rating r = v \<and> n_ratings r = c) (top_movies df m N) =
      take (length (filter (\<lambda>r. mean_rating r = v \<and> n_ratings r = c) (top_movies df m N)))
        (filter (\<lambda>r. mean_rating r = v \<and> n_ratings r = c) (lexsort_desc (movie_filtered df m)))"
    unfolding top_movies_def by (rule filter_take_prefix)
  then have b: "\<exists>k. filter (\<lambda>r. mean_rating r = v \<and> n_ratings r = c) (top_movies df m N) =
      take k (filter (\<lambda>r. (mean_rating r = v \<and> n_ratings r = c) \<and> m \<le> int (n_ratings r))
                (movie_stats df))"
    unfolding a by (rule exI)
  have c: "sorted (map key (movie_stats df))"
    by (simp add: movie_stats_def agg_groupby comp_def)
  have "distinct (map key (genre_stats df))"
    by (simp add: genre_stats_def agg_groupby_keepna comp_def distinct_keepna_keys)
  then have "distinct (genre_stats df)"
    by (simp add: distinct_map)
  then have d: "distinct (filtered tie df m' asc)"
    unfolding filtered_def by (intro distinct_sort_values distinct_filter)
  have e: "set (filter (\<lambda>r. mean_rating r = w) (filtered tie df m' asc)) =
     {r \<in> set (genre_stats df). m' \<le> int (n_ratings r) \<and> mean_rating r = w}"
    by (auto simp: filtered_def set_sort_values)
  from a b c d e show ?thesis
    by (intro conjI)
qed

lemma movie_stats_tie_df:
  "movie_stats tie_df =
     [\<lparr>key = (10, ''T''), mean_rating = 3, n_ratings = 1\<rparr>,
      \<lparr>key = (11, ''U''), mean_rating = 3, n_ratings = 1\<rparr>]"
  by code_simp

theorem tie_order_witness:
  "filter (\<lambda>r. mean_rating r = 3 \<and> n_ratings r = 1) (lexsort_desc (movie_filtered tie_df 1)) =
     [\<lparr>key = (10, ''T''), mean_rating = 3, n_ratings = 1\<rparr>,
      \<lparr>key = (11, ''U''), mean_rating = 3, n_ratings = 1\<rparr>] \<and>
   set (filter (\<lambda>r. mean_rating r = 3) (filtered ties_from_right ties_df 0 True)) =
     {r \<in> set (genre_stats ties_df). (0::int) \<le> int (n_ratings r) \<and> mean_rating r = 3}"
proof -
  from tie_order [of 3 1 tie_df 1]
  have "filter (\<lambda>r. mean_rating r = 3 \<and> n_ratings r = 1) (lexsort_desc (movie_filtered tie_df 1)) =
     filter (\<lambda>r. (mean_rating r = 3 \<and> n_ratings r = 1) \<and> 1 \<le> int (n_ratings r)) (movie_stats tie_df)"
    by (rule conjunct1)
  then have a: "filter (\<lambda>r. mean_rating r = 3 \<and> n_ratings r = 1) (lexsort_desc (movie_filtered tie_df 1)) =
     [\<lparr>key = (10, ''T''), mean_rating = 3, n_ratings = 1\<rparr>,
      \<lparr>key = (11, ''U''), mean_rating = 3, n_ratings = 1\<rparr>]"
    unfolding movie_stats_tie_df by simp
  from tie_order [where df = ties_df and tie = ties_from_right and m' = 0 and asc = True and w = 3]
  have b: "set (filter (\<lambda>r. mean_rating r = 3) (filtered ties_from_right ties_df 0 True)) =
     {r \<in> set (genre_stats ties_df). (0::int) \<le> int (n_ratings r) \<and> mean_rating r = 3}"
    by blast
  from a b show ?thesis
    by (intro conjI)
qed

text \<open>
  C7 as the claim states it fails: in Q2 two genres with the same mean rating need not
  keep their order in the grouped table. With \<open>ties_from_right\<close> the ascending table of
  \<open>ties_df\<close> has the genres \<open>c\<close> and \<open>d\<close>, both of mean rating 3, in the order \<open>d\<close>,
  \<open>c\<close>.
\<close>

theorem tie_order_counterexample:
  "genre_stats ties_df =
     [\<lparr>key = Some ''a'', mean_rating = 5, n_ratings = 1\<rparr>,
      \<lparr>key = Some ''b'', mean_rating = 4, n_ratings = 1\<rparr>,
      \<lparr>key = Some ''c'', mean_rating = 3, n_ratings = 1\<rparr>,
      \<lparr>key = Some ''d'', mean_rating = 3, n_ratings = 1\<rparr>] \<and>
   filtered ties_from_right ties_df 0 True =
     [\<lparr>key = Some ''d'', mean_rating = 3, n_ratings = 1\<rparr>,
      \<lparr>key = Some ''c'', mean_rating = 3, n_ratings = 1\<rparr>,
      \<lparr>key = Some ''b'', mean_rating = 4, n_ratings = 1\<rparr>,
      \<lparr>key = Some ''a'', mean_rating = 5, n_ratings = 1\<rparr>] \<and>
   filtered ties_from_right ties_df 0 False =
     [\<lparr>key = Some ''a'', mean_rating = 5, n_ratings = 1\<rparr>,
      \<lparr>key = Some ''b'', mean_rating = 4, n_ratings = 1\<rparr>,
      \<lparr>key = Some ''c'', mean_rating = 3, n_ratings = 1\<rparr>,
      \<lparr>key = Some ''d'', mean_rating = 3, n_ratings = 1\<rparr>] \<and>
   filter (\<lambda>r. mean_rating r = 3) (filtered ties_from_right ties_df 0 True) \<noteq>
     filter (\<lambda>r. mean_rating r = 3) (genre_stats ties_df)"
  by code_simp

text \<open>
  With an \<^verbatim>\<open>argsort\<close> that keeps equal keys in the order of the column, \<open>sort_values\<close>
  is a stable sort in both directions.
\<close>

lemma map_insort_key:
  "map f (insort_key (\<lambda>i. g (f i)) x xs) = insort_key g (f x) (map f xs)"
  by (induction xs) auto

lemma map_sort_key: "map f (sort_key (\<lambda>i. g (f i)) xs) = sort_key g (map f xs)"
  by (induction xs) (auto simp: map_insort_key)

lemma sort_key_cong_set:
  "(\<And>x. x \<in> set xs \<Longrightarrow> f x = g x) \<Longrightarrow> sort_key f xs = sort_key g xs"
proof (induction xs)
  case Nil
  then show ?case by simp
next
  case (Cons a xs)
  have "insort_key f a ys = insort_key g a ys" if "set ys \<subseteq> set xs" for ys
    using that Cons.prems by (induction ys) auto
  with Cons show ?case
    by simp
qed

lemma argsort_in_order:
  "map (\<lambda>i. xs ! i) (argsort ties_in_order (map col xs)) = sort_key col xs"
proof -
  have "argsort ties_in_order (map col xs) = sort_key (\<lambda>i. col (xs ! i)) [0..<length xs]"
    unfolding argsort_def ties_in_order_def
    by (simp add: sort_key_const del: sort_key_simps) (rule sort_key_cong_set, simp)
  then show ?thesis
    by (simp add: map_sort_key map_nth)
qed

lemma sort_values_in_order:
  "sort_values ties_in_order col ascending xs =
   (if ascending then sort_key col xs else rev (sort_key col (rev xs)))"
proof (cases ascending)
  case True
  then show ?thesis
    by (simp add: sort_values_def nargsort_asc argsort_in_order)
next
  case False
  have "map (\<lambda>i. xs ! i) (map (\<lambda>j. length xs - Suc j) (argsort ties_in_order (map col (rev xs)))) =
      map (\<lambda>j. rev xs ! j) (argsort ties_in_order (map col (rev xs)))"
    unfolding map_map comp_def
    by (rule map_cong) (simp_all add: argsort_perm rev_nth)
  also have "\<dots> = sort_key col (rev xs)"
    by (rule argsort_in_order)
  finally have "rev (map (\<lambda>i. xs ! i)
      (map (\<lambda>j. length xs - Suc j) (argsort ties_in_order (map col (rev xs))))) =
      rev (sort_key col (rev xs))"
    by (rule arg_cong)
  moreover have "sort_values ties_in_order col False xs =
      rev (map (\<lambda>i. xs ! i)
        (map (\<lambda>j. length xs - Suc j) (argsort ties_in_order (map col (rev xs)))))"
    by (simp only: sort_values_def nargsort_desc rev_map length_map)
  ultimately show ?thesis
    using False by simp
qed

end
